theory Spec2Isabelle
  imports Complex_Main "HOL-Library.Log_Nat" "HOL-Library.List_Lexorder" "HOL-Library.Char_ord"
begin

section \<open>Values of the Python program\<close>

subsection \<open>Exceptions\<close>

text \<open>
  The exceptions the modelled code can raise. \<open>KeyError\<close> carries the missing key, which
  the client prints in its "Missing key" message.
\<close>

datatype exn =
    KeyError string
  | IndexError
  | TypeError
  | AttributeError
  | ValueError
  | OverflowError
  | ZeroDivisionError

text \<open>Sequencing of computations that may raise: the first exception wins.\<close>

definition then_do :: "exn + 'a \<Rightarrow> ('a \<Rightarrow> exn + 'b) \<Rightarrow> exn + 'b" where
  "then_do m f = (case m of Inl e \<Rightarrow> Inl e | Inr x \<Rightarrow> f x)"

fun map_exn :: "('a \<Rightarrow> exn + 'b) \<Rightarrow> 'a list \<Rightarrow> exn + 'b list" where
  "map_exn f [] = Inr []"
| "map_exn f (x # xs) =
     then_do (f x) (\<lambda>y. then_do (map_exn f xs) (\<lambda>ys. Inr (y # ys)))"

fun fold_exn :: "('s \<Rightarrow> 'a \<Rightarrow> exn + 's) \<Rightarrow> 's \<Rightarrow> 'a list \<Rightarrow> exn + 's" where
  "fold_exn f s [] = Inr s"
| "fold_exn f s (x # xs) = then_do (f s x) (\<lambda>s'. fold_exn f s' xs)"

subsection \<open>Floats\<close>

text \<open>
  A Python \<open>float\<close> is an IEEE 754 binary64 number: a finite value (a rational with a
  53-bit significand), an infinity or a NaN. Every arithmetic operation returns the
  exact result rounded to the nearest representable value, ties to the even significand;
  a rounded result of magnitude \<open>2 ^ 1024\<close> or more is an infinity. The sign of a zero
  is not kept: it changes no comparison and no arithmetic result of the program.
\<close>

datatype pyfloat = Fin rat | PosInf | NegInf | NaN

definition ilog2 :: "rat \<Rightarrow> int" where
  \<comment> \<open>the exponent \<open>e\<close> with \<open>2 ^ e \<le> |q| < 2 ^ (e + 1)\<close>, for \<open>q \<noteq> 0\<close>\<close>
  "ilog2 q = (let (a, b) = quotient_of \<bar>q\<bar>; e = bitlen a - bitlen b
              in if 2 powi e \<le> \<bar>q\<bar> then e else e - 1)"

definition round_half_even :: "rat \<Rightarrow> int" where
  "round_half_even r =
     (let f = \<lfloor>r\<rfloor>; d = r - of_int f
      in if d < 1 / 2 then f else if 1 / 2 < d then f + 1 else if even f then f else f + 1)"

definition ulp_of :: "rat \<Rightarrow> rat" where
  \<comment> \<open>the spacing of the floats around \<open>q\<close>; \<open>2 ^ -1074\<close> in the subnormal range\<close>
  "ulp_of q = 2 powi (max (ilog2 q - 52) (- 1074))"

definition round_to :: "rat \<Rightarrow> rat \<Rightarrow> rat" where
  \<comment> \<open>the multiple of \<open>u\<close> nearest to \<open>q\<close>\<close>
  "round_to u q = of_int (round_half_even (q / u)) * u"

definition finite_or_inf :: "rat \<Rightarrow> pyfloat" where
  \<comment> \<open>overflow: a rounded value of magnitude \<open>2 ^ 1024\<close> or more\<close>
  "finite_or_inf r =
     (if 1024 \<le> ilog2 r then (if 0 < r then PosInf else NegInf) else Fin r)"

definition fl :: "rat \<Rightarrow> pyfloat" where
  "fl q = (if q = 0 then Fin 0 else finite_or_inf (round_to (ulp_of q) q))"

fun fneg :: "pyfloat \<Rightarrow> pyfloat" where
  "fneg (Fin a) = Fin (- a)"
| "fneg PosInf = NegInf"
| "fneg NegInf = PosInf"
| "fneg NaN = NaN"

fun fadd :: "pyfloat \<Rightarrow> pyfloat \<Rightarrow> pyfloat" where
  "fadd (Fin a) (Fin b) = fl (a + b)"
| "fadd NaN y = NaN"
| "fadd x NaN = NaN"
| "fadd PosInf NegInf = NaN"
| "fadd NegInf PosInf = NaN"
| "fadd PosInf y = PosInf"
| "fadd x PosInf = PosInf"
| "fadd NegInf y = NegInf"
| "fadd x NegInf = NegInf"

definition fsub :: "pyfloat \<Rightarrow> pyfloat \<Rightarrow> pyfloat" where
  "fsub x y = fadd x (fneg y)"

fun fsign :: "pyfloat \<Rightarrow> rat" where
  "fsign (Fin a) = sgn a"
| "fsign PosInf = 1"
| "fsign NegInf = - 1"
| "fsign NaN = 0"

definition signed_result :: "pyfloat \<Rightarrow> pyfloat \<Rightarrow> pyfloat" where
  \<comment> \<open>a product or quotient in which an infinity takes part\<close>
  "signed_result x y =
     (if x = NaN \<or> y = NaN \<or> fsign x * fsign y = 0 then NaN
      else if 0 < fsign x * fsign y then PosInf else NegInf)"

fun fmul :: "pyfloat \<Rightarrow> pyfloat \<Rightarrow> pyfloat" where
  "fmul (Fin a) (Fin b) = fl (a * b)"
| "fmul x y = signed_result x y"

text \<open>Python's \<open>/\<close> raises on a zero divisor, whatever the dividend.\<close>

fun fdiv :: "pyfloat \<Rightarrow> pyfloat \<Rightarrow> exn + pyfloat" where
  "fdiv (Fin a) (Fin b) = (if b = 0 then Inl ZeroDivisionError else Inr (fl (a / b)))"
| "fdiv x (Fin b) =
     (if b = 0 then Inl ZeroDivisionError
      else Inr (if x = NaN then NaN else if 0 < fsign x * fsign (Fin b) then PosInf else NegInf))"
| "fdiv (Fin a) NaN = Inr NaN"
| "fdiv (Fin a) y = Inr (Fin 0)"
| "fdiv x y = Inr NaN"

fun flt :: "pyfloat \<Rightarrow> pyfloat \<Rightarrow> bool" where
  "flt (Fin a) (Fin b) = (a < b)"
| "flt NaN y = False"
| "flt x NaN = False"
| "flt x NegInf = False"
| "flt PosInf y = False"
| "flt x y = True"

definition feq :: "pyfloat \<Rightarrow> pyfloat \<Rightarrow> bool" where
  "feq x y = (x = y \<and> x \<noteq> NaN)"

definition fle :: "pyfloat \<Rightarrow> pyfloat \<Rightarrow> bool" where
  "fle x y = (flt x y \<or> feq x y)"

text \<open>\<open>int(x)\<close> truncates towards zero and refuses infinities and NaN.\<close>

definition py_trunc :: "rat \<Rightarrow> int" where
  "py_trunc q = (if 0 \<le> q then \<lfloor>q\<rfloor> else \<lceil>q\<rceil>)"

fun py_int :: "pyfloat \<Rightarrow> exn + int" where
  "py_int (Fin q) = Inr (py_trunc q)"
| "py_int NaN = Inl ValueError"
| "py_int x = Inl OverflowError"

text \<open>
  True division of two \<open>int\<close>s gives the correctly rounded float of the quotient.
\<close>

definition int_truediv :: "int \<Rightarrow> int \<Rightarrow> exn + pyfloat" where
  "int_truediv a b = (if b = 0 then Inl ZeroDivisionError else Inr (fl (of_int a / of_int b)))"

text \<open>
  \<open>min\<close> and \<open>max\<close> keep the first element and replace it by a later one that compares
  strictly smaller (larger); on an empty sequence they raise \<open>ValueError\<close>.
\<close>

definition py_min :: "pyfloat list \<Rightarrow> exn + pyfloat" where
  "py_min xs = (case xs of [] \<Rightarrow> Inl ValueError
                | x # ys \<Rightarrow> Inr (foldl (\<lambda>m y. if flt y m then y else m) x ys))"

definition py_max :: "pyfloat list \<Rightarrow> exn + pyfloat" where
  "py_max xs = (case xs of [] \<Rightarrow> Inl ValueError
                | x # ys \<Rightarrow> Inr (foldl (\<lambda>m y. if flt m y then y else m) x ys))"

text \<open>
  \<open>sum\<close> starts from \<open>0\<close> and adds the items from left to right, rounding each
  addition. (From Python 3.12 on \<open>sum\<close> also carries a compensation term for floats; it
  is zero whenever no addition rounds, and it leaves the sum of three times \<open>0.1\<close> as it
  is here.)
\<close>

definition py_sum :: "pyfloat list \<Rightarrow> pyfloat" where
  "py_sum xs = foldl fadd (Fin 0) xs"

subsection \<open>Parsed JSON\<close>

text \<open>
  What \<open>response.json()\<close> returns. A number is kept by the value of its literal and becomes
  the nearest float where the program computes with it. (Python keeps a literal without
  fraction or exponent as an \<open>int\<close>; it compares, adds and divides like the float of the
  same value as long as the integers involved stay below \<open>2 ^ 53\<close>.) A \<open>dict\<close> is an
  association list read with \<open>map_of\<close>, so that the first entry of a key is the one that
  counts. Characters are HOL's 8-bit characters, compared by code.
\<close>

datatype json =
    JNull
  | JBool bool
  | JNum rat
  | JStr string
  | JArr "json list"
  | JObj "(string \<times> json) list"

fun truthy :: "json \<Rightarrow> bool" where
  "truthy JNull = False"
| "truthy (JBool b) = b"
| "truthy (JNum q) = (fl q \<noteq> Fin 0)"
| "truthy (JStr s) = (s \<noteq> [])"
| "truthy (JArr xs) = (xs \<noteq> [])"
| "truthy (JObj kvs) = (kvs \<noteq> [])"

text \<open>\<open>v[k]\<close> for a string key \<open>k\<close>.\<close>

fun subscript :: "json \<Rightarrow> string \<Rightarrow> exn + json" where
  "subscript (JObj kvs) k = (case map_of kvs k of None \<Rightarrow> Inl (KeyError k) | Some v \<Rightarrow> Inr v)"
| "subscript v k = Inl TypeError"

text \<open>\<open>v[0]\<close>. A \<open>dict\<close> from JSON has string keys only, so \<open>0\<close> is never one of them.\<close>

fun subscript0 :: "json \<Rightarrow> exn + json" where
  "subscript0 (JArr []) = Inl IndexError"
| "subscript0 (JArr (x # xs)) = Inr x"
| "subscript0 (JObj kvs) = Inl (KeyError ''0'')"
| "subscript0 (JStr []) = Inl IndexError"
| "subscript0 (JStr (c # cs)) = Inr (JStr [c])"
| "subscript0 v = Inl TypeError"

text \<open>\<open>for item in v\<close>: the items of a list, the keys of a dict, the characters of a string.\<close>

fun iterate :: "json \<Rightarrow> exn + json list" where
  "iterate (JArr xs) = Inr xs"
| "iterate (JObj kvs) = Inr (map (\<lambda>kv. JStr (fst kv)) kvs)"
| "iterate (JStr s) = Inr (map (\<lambda>c. JStr [c]) s)"
| "iterate v = Inl TypeError"

text \<open>A value read as a number: a \<open>bool\<close> is an \<open>int\<close> in Python.\<close>

fun number :: "json \<Rightarrow> exn + pyfloat" where
  "number (JNum q) = Inr (fl q)"
| "number (JBool b) = Inr (Fin (if b then 1 else 0))"
| "number v = Inl TypeError"

subsection \<open>Strings\<close>

text \<open>\<open>s.split(sep)\<close> for a one-character separator: never an empty list.\<close>

fun split_on :: "char \<Rightarrow> string \<Rightarrow> string list" where
  "split_on c [] = [[]]"
| "split_on c (x # xs) =
     (if x = c then [] # split_on c xs
      else (case split_on c xs of w # ws \<Rightarrow> (x # w) # ws | [] \<Rightarrow> [[x]]))"

definition upper_char :: "char \<Rightarrow> char" where
  "upper_char c =
     (if CHR ''a'' \<le> c \<and> c \<le> CHR ''z'' then char_of (of_char c - (32::nat)) else c)"

definition lower_char :: "char \<Rightarrow> char" where
  "lower_char c =
     (if CHR ''A'' \<le> c \<and> c \<le> CHR ''Z'' then char_of (of_char c + (32::nat)) else c)"

text \<open>
  \<open>s.capitalize()\<close>: the first character in upper case, the rest in lower case; the
  letters with a case are the ASCII letters here.
\<close>

fun capitalize :: "string \<Rightarrow> string" where
  "capitalize [] = []"
| "capitalize (c # cs) = upper_char c # map lower_char cs"

text \<open>Text for the terminal is a list of Unicode code points.\<close>

type_synonym ustring = "int list"

section \<open>Data model (\<open>weather_data.py\<close>)\<close>

text \<open>
  The dataclasses check no types: a field holds whatever the client read from the
  response, so the fields copied from it unchanged are \<open>json\<close> values.
\<close>

record WeatherData =
  city :: json
  country :: json
  temperature :: json
  feels_like :: json
  humidity :: json
  description :: string
  icon :: json
  wind_speed :: json
  pressure :: json

record DailyForecast =
  date :: string
  min_temp :: pyfloat
  max_temp :: pyfloat
  avg_temp :: pyfloat
  description :: string
  icon :: json

record ForecastData =
  city :: json
  country :: json
  daily_forecasts :: "DailyForecast list"

section \<open>Renderer (\<open>weather_display.py\<close>)\<close>

definition fallback_glyph :: ustring where
  "fallback_glyph = [0x2753]"

definition WEATHER_ICONS :: "string \<rightharpoonup> ustring" where
  "WEATHER_ICONS = map_of
     [(''01d'', [0x2600, 0xFE0F]), (''01n'', [0x1F319]),
      (''02d'', [0x1F324, 0xFE0F]), (''02n'', [0x2601, 0xFE0F]),
      (''03d'', [0x2601, 0xFE0F]), (''03n'', [0x2601, 0xFE0F]),
      (''04d'', [0x2601, 0xFE0F]), (''04n'', [0x2601, 0xFE0F]),
      (''09d'', [0x1F327, 0xFE0F]), (''09n'', [0x1F327, 0xFE0F]),
      (''10d'', [0x1F326, 0xFE0F]), (''10n'', [0x1F327, 0xFE0F]),
      (''11d'', [0x26C8, 0xFE0F]), (''11n'', [0x26C8, 0xFE0F]),
      (''13d'', [0x2744, 0xFE0F]), (''13n'', [0x2744, 0xFE0F]),
      (''50d'', [0x1F32B, 0xFE0F]), (''50n'', [0x1F32B, 0xFE0F]),
      (''unknown'', fallback_glyph)]"

text \<open>
  \<open>_get_weather_emoji\<close> is \<open>WEATHER_ICONS.get(icon_code, WEATHER_ICONS["unknown"])\<close>.
  \<open>dict.get\<close> hashes its key: a list or a dict raises \<open>TypeError\<close>, any other value
  that is not a key of the table gets the default.
\<close>

fun get_weather_emoji :: "json \<Rightarrow> exn + ustring" where
  "get_weather_emoji (JStr icon_code) =
     Inr (case WEATHER_ICONS icon_code of Some g \<Rightarrow> g | None \<Rightarrow> fallback_glyph)"
| "get_weather_emoji (JArr xs) = Inl TypeError"
| "get_weather_emoji (JObj kvs) = Inl TypeError"
| "get_weather_emoji v = Inr fallback_glyph"

text \<open>\<open>day.date.split('-')[2]\<close>, the day of the month.\<close>

definition day_number :: "string \<Rightarrow> exn + string" where
  "day_number d = (case split_on CHR ''-'' d of a # b # c # rest \<Rightarrow> Inr c | _ \<Rightarrow> Inl IndexError)"

definition chart_height :: int where
  "chart_height = 8"

definition chart_width :: int where
  "chart_width = 50"

definition blank :: int where
  "blank = 0x20"

definition marker :: int where
  "marker = 0x25CF"

text \<open>
  \<open>int(((day.avg_temp - min_temp_all) / temp_range) * (chart_height - 1))\<close>, clamped.
\<close>

definition scaled_temp :: "pyfloat \<Rightarrow> pyfloat \<Rightarrow> pyfloat \<Rightarrow> exn + int" where
  "scaled_temp avg min_temp_all temp_range =
     then_do (fdiv (fsub avg min_temp_all) temp_range) (\<lambda>ratio.
     then_do (py_int (fmul ratio (Fin (of_int (chart_height - 1))))) (\<lambda>k.
     Inr (max 0 (min k (chart_height - 1)))))"

text \<open>
  \<open>int((i / (len(data.daily_forecasts) - 1)) * (chart_width - 1))\<close> when there is more
  than one day, else \<open>0\<close>; clamped.
\<close>

definition column_pos :: "nat \<Rightarrow> nat \<Rightarrow> exn + int" where
  "column_pos i n =
     then_do (if 1 < n
              then then_do (int_truediv (int i) (int n - 1)) (\<lambda>ratio.
                   py_int (fmul ratio (Fin (of_int (chart_width - 1)))))
              else Inr 0) (\<lambda>k.
     Inr (max 0 (min k (chart_width - 1))))"

text \<open>
  One round of the plotting loop: the marker of day \<open>i\<close> goes into line
  \<open>chart_height - 1 - scaled_temp\<close> at \<open>column_pos\<close>, then the day's label is printed.
  Both indices are within the grid after clamping.
\<close>

definition plot_day ::
  "pyfloat \<Rightarrow> pyfloat \<Rightarrow> nat \<Rightarrow> ustring list \<Rightarrow> nat \<times> DailyForecast \<Rightarrow> exn + ustring list" where
  "plot_day min_temp_all temp_range n chart_lines iday =
     then_do (scaled_temp (avg_temp (snd iday)) min_temp_all temp_range) (\<lambda>scaled.
     then_do (column_pos (fst iday) n) (\<lambda>col.
     let row = nat (chart_height - 1 - scaled);
         line_chars = (chart_lines ! row)[nat col := marker]
     in then_do (day_number (date (snd iday))) (\<lambda>label.
        Inr (chart_lines[row := line_chars]))))"

text \<open>
  \<open>temp_range = max_temp_all - min_temp_all\<close>, replaced by \<open>1\<close> when it compares equal
  to \<open>0\<close>.
\<close>

definition temp_range_of :: "pyfloat \<Rightarrow> pyfloat \<Rightarrow> pyfloat" where
  "temp_range_of max_temp_all min_temp_all =
     (let temp_range = fsub max_temp_all min_temp_all
      in if feq temp_range (Fin 0) then Fin 1 else temp_range)"

definition blank_chart :: "ustring list" where
  \<comment> \<open>\<open>[" " * chart_width for _ in range(chart_height)]\<close>\<close>
  "blank_chart = replicate (nat chart_height) (replicate (nat chart_width) blank)"

text \<open>One forecast panel: its title (the day of the month) and the glyph of the day.\<close>

definition day_panel :: "DailyForecast \<Rightarrow> exn + string \<times> ustring" where
  "day_panel day =
     then_do (get_weather_emoji (icon day)) (\<lambda>glyph.
     then_do (day_number (date day)) (\<lambda>title. Inr (title, glyph)))"

record forecast_view =
  forecast_panels :: "(string \<times> ustring) list"
  chart_lines :: "ustring list"
  date_labels :: "string list"

text \<open>
  \<open>display_forecast\<close>: what it puts on the terminal, or the exception it raises. The
  formatting of the numbers and the Rich markup are left out.
\<close>

definition display_forecast :: "ForecastData \<Rightarrow> exn + forecast_view" where
  "display_forecast data =
     then_do (py_min (map min_temp (daily_forecasts data))) (\<lambda>min_temp_all.
     then_do (py_max (map max_temp (daily_forecasts data))) (\<lambda>max_temp_all.
     then_do (map_exn day_panel (daily_forecasts data)) (\<lambda>panels.
     let temp_range = temp_range_of max_temp_all min_temp_all;
         n = length (daily_forecasts data)
     in then_do (fold_exn (plot_day min_temp_all temp_range n) blank_chart
                   (zip [0..<n] (daily_forecasts data))) (\<lambda>lines.
        then_do (map_exn (\<lambda>day. day_number (date day)) (daily_forecasts data)) (\<lambda>labels.
        Inr \<lparr>forecast_panels = panels, chart_lines = lines, date_labels = labels\<rparr>)))))"

section \<open>API client (\<open>weather_api.py\<close>)\<close>

text \<open>
  What a request method does with the value of \<open>_make_request\<close> (the parsed body, or
  \<open>None\<close>, here \<open>JNull\<close>, after a network or HTTP error):
  \<^item> \<open>Returned x\<close>: it returns the object \<open>x\<close>;
  \<^item> \<open>ParseFailure k\<close>: a \<open>KeyError\<close> was caught, "Error parsing ... Missing key k"
    is printed and \<open>None\<close> is returned;
  \<^item> \<open>UnexpectedFailure e\<close>: another exception was caught, "An unexpected error occurred
    during forecast parsing" is printed and \<open>None\<close> is returned;
  \<^item> \<open>NoData\<close>: the value is falsy, \<open>None\<close> is returned and nothing is printed;
  \<^item> \<open>Raised e\<close>: the exception \<open>e\<close> leaves the method.
\<close>

datatype 'a outcome =
    Returned 'a
  | ParseFailure string
  | UnexpectedFailure exn
  | NoData
  | Raised exn

fun returns_None :: "'a outcome \<Rightarrow> bool" where
  "returns_None (Returned x) = False"
| "returns_None (Raised e) = False"
| "returns_None r = True"

text \<open>\<open>v.capitalize()\<close> exists on strings only.\<close>

fun py_capitalize :: "json \<Rightarrow> exn + string" where
  "py_capitalize (JStr s) = Inr (capitalize s)"
| "py_capitalize v = Inl AttributeError"

text \<open>\<open>v[k1][k2]\<close> and \<open>v['weather'][0][k]\<close>.\<close>

definition subscript2 :: "json \<Rightarrow> string \<Rightarrow> string \<Rightarrow> exn + json" where
  "subscript2 v k1 k2 = then_do (subscript v k1) (\<lambda>u. subscript u k2)"

definition weather0 :: "json \<Rightarrow> string \<Rightarrow> exn + json" where
  "weather0 v k =
     then_do (subscript v ''weather'') (\<lambda>w. then_do (subscript0 w) (\<lambda>x. subscript x k))"

subsection \<open>\<open>get_current_weather\<close>\<close>

text \<open>The arguments of \<open>WeatherData(...)\<close> are evaluated in the order written.\<close>

definition current_weather_of :: "json \<Rightarrow> exn + WeatherData" where
  "current_weather_of data =
     then_do (subscript data ''name'') (\<lambda>name.
     then_do (subscript2 data ''sys'' ''country'') (\<lambda>ctry.
     then_do (subscript2 data ''main'' ''temp'') (\<lambda>temp.
     then_do (subscript2 data ''main'' ''feels_like'') (\<lambda>feels.
     then_do (subscript2 data ''main'' ''humidity'') (\<lambda>hum.
     then_do (then_do (weather0 data ''description'') py_capitalize) (\<lambda>descr.
     then_do (weather0 data ''icon'') (\<lambda>icn.
     then_do (subscript2 data ''wind'' ''speed'') (\<lambda>speed.
     then_do (subscript2 data ''main'' ''pressure'') (\<lambda>press.
     Inr \<lparr>WeatherData.city = name, country = ctry, temperature = temp, feels_like = feels,
          humidity = hum, description = descr, icon = icn, wind_speed = speed,
          pressure = press\<rparr>)))))))))"

definition get_current_weather :: "json \<Rightarrow> WeatherData outcome" where
  "get_current_weather data =
     (if truthy data
      then (case current_weather_of data of
              Inr w \<Rightarrow> Returned w
            | Inl (KeyError k) \<Rightarrow> ParseFailure k
            | Inl e \<Rightarrow> Raised e)
      else NoData)"

subsection \<open>\<open>get_five_day_forecast\<close>\<close>

text \<open>\<open>item['dt_txt'].split(' ')[0]\<close>.\<close>

definition sample_date :: "json \<Rightarrow> exn + string" where
  "sample_date item =
     then_do (subscript item ''dt_txt'') (\<lambda>t.
       case t of
         JStr s \<Rightarrow> (case split_on CHR '' '' s of d # rest \<Rightarrow> Inr d | [] \<Rightarrow> Inl IndexError)
       | _ \<Rightarrow> Inl AttributeError)"

text \<open>
  \<open>forecast_by_day\<close> is a \<open>dict\<close>, which keeps its keys in the order of their first
  insertion: an association list with distinct keys. One round of the grouping loop
  appends the item to the list of its date, after adding the date if it is new.
\<close>

fun add_reading :: "string \<Rightarrow> json \<Rightarrow> (string \<times> json list) list \<Rightarrow> (string \<times> json list) list" where
  "add_reading d item [] = [(d, [item])]"
| "add_reading d item ((k, rs) # g) =
     (if k = d then (k, rs @ [item]) # g else (k, rs) # add_reading d item g)"

definition forecast_by_day :: "json list \<Rightarrow> exn + (string \<times> json list) list" where
  "forecast_by_day items =
     fold_exn (\<lambda>g item. then_do (sample_date item) (\<lambda>d. Inr (add_reading d item g))) [] items"

text \<open>
  \<open>Counter(xs)\<close> counts equal values under the first of them, in the order of first
  occurrence, and needs hashable values. Values are equal as \<open>dict\<close> keys when they are
  equal strings or equal numbers (\<open>True\<close> is \<open>1\<close>).
\<close>

datatype hash_key = KNone | KNum pyfloat | KStr string

fun hash_of :: "json \<Rightarrow> exn + hash_key" where
  "hash_of JNull = Inr KNone"
| "hash_of (JBool b) = Inr (KNum (Fin (if b then 1 else 0)))"
| "hash_of (JNum q) = Inr (KNum (fl q))"
| "hash_of (JStr s) = Inr (KStr s)"
| "hash_of v = Inl TypeError"

fun tally :: "hash_key \<Rightarrow> json \<Rightarrow> (hash_key \<times> json \<times> nat) list \<Rightarrow> (hash_key \<times> json \<times> nat) list" where
  "tally k x [] = [(k, x, 1)]"
| "tally k x ((k', x', n) # c) =
     (if k' = k then (k', x', n + 1) # c else (k', x', n) # tally k x c)"

definition Counter :: "json list \<Rightarrow> exn + (hash_key \<times> json \<times> nat) list" where
  "Counter xs = fold_exn (\<lambda>c x. then_do (hash_of x) (\<lambda>k. Inr (tally k x c))) [] xs"

text \<open>
  \<open>c.most_common(1)[0][0]\<close>: \<open>most_common(1)\<close> is \<open>max\<close> over the items by count, which
  keeps the first of the maximal items; on an empty counter it is the empty list.
\<close>

definition most_common1 :: "(hash_key \<times> json \<times> nat) list \<Rightarrow> exn + json" where
  "most_common1 c =
     (case c of [] \<Rightarrow> Inl IndexError
      | p # ps \<Rightarrow>
          Inr (fst (snd (foldl (\<lambda>m y. if snd (snd m) < snd (snd y) then y else m) p ps))))"

text \<open>\<open>sum(temps) / len(temps)\<close>.\<close>

definition mean :: "pyfloat list \<Rightarrow> exn + pyfloat" where
  "mean temps = fdiv (py_sum temps) (Fin (of_nat (length temps)))"

text \<open>
  The body of the loop over the groups. The three lists are read first, then the most
  common description and icon are found, then \<open>min\<close>, \<open>max\<close> and \<open>sum\<close> run over the
  temperatures; on anything that is not a number one of them raises \<open>TypeError\<close>.
\<close>

definition reading_temp :: "json \<Rightarrow> exn + json" where
  "reading_temp r = subscript2 r ''main'' ''temp''"

definition daily_forecast :: "string \<Rightarrow> json list \<Rightarrow> exn + DailyForecast" where
  "daily_forecast date_str readings =
     then_do (map_exn reading_temp readings) (\<lambda>temps.
     then_do (map_exn (\<lambda>r. weather0 r ''description'') readings) (\<lambda>descriptions.
     then_do (map_exn (\<lambda>r. weather0 r ''icon'') readings) (\<lambda>icons.
     then_do (then_do (then_do (Counter descriptions) most_common1) py_capitalize)
       (\<lambda>most_common_description.
     then_do (then_do (Counter icons) most_common1) (\<lambda>most_common_icon.
     then_do (map_exn number temps) (\<lambda>ts.
     then_do (py_min ts) (\<lambda>lo.
     then_do (py_max ts) (\<lambda>hi.
     then_do (mean ts) (\<lambda>av.
     Inr \<lparr>date = date_str, min_temp = lo, max_temp = hi, avg_temp = av,
          description = most_common_description, icon = most_common_icon\<rparr>)))))))))"

text \<open>
  The whole \<open>try\<close> block: grouping, one \<open>DailyForecast\<close> per group in the order of the
  groups, the stable sort by date (strings compare by code points), and the city.
\<close>

definition forecast_of :: "json \<Rightarrow> exn + ForecastData" where
  "forecast_of data =
     then_do (then_do (subscript data ''list'') iterate) (\<lambda>items.
     then_do (forecast_by_day items) (\<lambda>groups.
     then_do (map_exn (\<lambda>g. daily_forecast (fst g) (snd g)) groups) (\<lambda>days.
     then_do (subscript2 data ''city'' ''name'') (\<lambda>name.
     then_do (subscript2 data ''city'' ''country'') (\<lambda>ctry.
     Inr \<lparr>city = name, country = ctry, daily_forecasts = sort_key date days\<rparr>)))))"

definition get_five_day_forecast :: "json \<Rightarrow> ForecastData outcome" where
  "get_five_day_forecast data =
     (if truthy data
      then (case forecast_of data of
              Inr f \<Rightarrow> Returned f
            | Inl (KeyError k) \<Rightarrow> ParseFailure k
            | Inl e \<Rightarrow> UnexpectedFailure e)
      else NoData)"

text \<open>A sample of the forecast response, and a response of the service, for the examples.\<close>

definition sample :: "string \<Rightarrow> rat \<Rightarrow> string \<Rightarrow> string \<Rightarrow> json" where
  "sample dt_txt temp descr icn =
     JObj [(''dt_txt'', JStr dt_txt), (''main'', JObj [(''temp'', JNum temp)]),
           (''weather'', JArr [JObj [(''description'', JStr descr), (''icon'', JStr icn)]])]"

definition response :: "json list \<Rightarrow> json" where
  "response items =
     JObj [(''list'', JArr items),
           (''city'', JObj [(''name'', JStr ''Pune''), (''country'', JStr ''IN'')])]"

section \<open>Notions used in the statements\<close>

text \<open>The chart is a grid of \<open>chart_height\<close> lines of \<open>chart_width\<close> cells.\<close>

definition grid :: "ustring list \<Rightarrow> bool" where
  "grid ls \<longleftrightarrow> length ls = 8 \<and> (\<forall>l \<in> set ls. length l = 50)"

definition in_chart :: "nat \<Rightarrow> nat \<Rightarrow> bool" where
  "in_chart i j \<longleftrightarrow> i < 8 \<and> j < 50"

definition cell_of :: "pyfloat \<Rightarrow> pyfloat \<Rightarrow> nat \<Rightarrow> nat \<times> DailyForecast \<Rightarrow> nat \<times> nat \<Rightarrow> bool" where
  "cell_of lo r n iday rc \<longleftrightarrow>
     (\<exists>k c. scaled_temp (avg_temp (snd iday)) lo r = Inr k \<and> column_pos (fst iday) n = Inr c
        \<and> rc = (nat (7 - k), nat c))"

text \<open>
  The row and the column as the specification words them, with \<open>round\<close> to the
  nearest integer (ties to even, as Python's \<open>round\<close>), in exact arithmetic.
\<close>

definition spec_scaled_row :: "rat \<Rightarrow> rat \<Rightarrow> rat \<Rightarrow> int" where
  "spec_scaled_row a lo r =
     max 0 (min (round_half_even ((a - lo) / r * of_int (chart_height - 1))) (chart_height - 1))"

definition spec_column :: "nat \<Rightarrow> nat \<Rightarrow> int" where
  "spec_column i n =
     (if n = 1 then 0
      else max 0 (min (round_half_even (of_nat i / of_nat (n - 1) * of_int (chart_width - 1)))
                      (chart_width - 1)))"

text \<open>A forecast of one day, and what \<open>display_forecast\<close> draws for it.\<close>

definition one_day :: ForecastData where
  "one_day = \<lparr>city = JStr ''Pune'', country = JStr ''IN'', daily_forecasts =
     [\<lparr>date = ''2024-01-03'', min_temp = Fin 10, max_temp = Fin 30, avg_temp = Fin 20,
       description = ''Clear sky'', icon = JStr ''01d''\<rparr>]\<rparr>"

definition one_day_view :: forecast_view where
  "one_day_view = \<lparr>forecast_panels = [(''03'', [0x2600, 0xFE0F])],
     chart_lines = blank_chart[4 := (blank_chart ! 4)[0 := marker]],
     date_labels = [''03'']\<rparr>"

text \<open>A forecast of two days, and what \<open>display_forecast\<close> draws for it.\<close>

definition two_days :: ForecastData where
  "two_days = \<lparr>city = JStr ''Pune'', country = JStr ''IN'', daily_forecasts =
     [\<lparr>date = ''2024-01-03'', min_temp = Fin 10, max_temp = Fin 12, avg_temp = Fin 11,
       description = ''Clear sky'', icon = JStr ''01d''\<rparr>,
      \<lparr>date = ''2024-01-04'', min_temp = Fin 14, max_temp = Fin 20, avg_temp = Fin 15,
       description = ''Light rain'', icon = JStr ''10d''\<rparr>]\<rparr>"

definition two_days_view :: forecast_view where
  "two_days_view = \<lparr>forecast_panels = [(''03'', [0x2600, 0xFE0F]), (''04'', [0x1F326, 0xFE0F])],
     chart_lines = (blank_chart[7 := (blank_chart ! 7)[0 := marker]])
                     [4 := (blank_chart ! 4)[49 := marker]],
     date_labels = [''03'', ''04'']\<rparr>"



text \<open>A response whose samples are not in the order of their days, and its forecast.\<close>

definition mixed_response :: json where
  "mixed_response = response
     [sample ''2024-01-04 00:00:00'' 15 ''light rain'' ''10d'',
      sample ''2024-01-03 21:00:00'' 20 ''clear sky'' ''01d'',
      sample ''2024-01-04 03:00:00'' 17 ''light rain'' ''10d'']"

definition mixed_forecast :: ForecastData where
  "mixed_forecast = \<lparr>city = JStr ''Pune'', country = JStr ''IN'', daily_forecasts =
     [\<lparr>date = ''2024-01-03'', min_temp = Fin 20, max_temp = Fin 20, avg_temp = Fin 20,
       description = ''Clear sky'', icon = JStr ''01d''\<rparr>,
      \<lparr>date = ''2024-01-04'', min_temp = Fin 15, max_temp = Fin 17, avg_temp = Fin 16,
       description = ''Light rain'', icon = JStr ''10d''\<rparr>]\<rparr>"


text \<open>The readings stored under a key of the grouping \<open>dict\<close>.\<close>

definition readings_of :: "(string \<times> json list) list \<Rightarrow> string \<Rightarrow> json list" where
  "readings_of g k = (case map_of g k of None \<Rightarrow> [] | Some rs \<Rightarrow> rs)"


text \<open>
  The statistical mode of a list with ties broken by the first-encountered value: a
  value of the list that no value outnumbers, and that comes first among the values
  as frequent as it is.
\<close>

definition first_index :: "'a list \<Rightarrow> 'a \<Rightarrow> nat" where
  "first_index xs x = length (takeWhile (\<lambda>y. y \<noteq> x) xs)"

definition first_mode :: "'a list \<Rightarrow> 'a \<Rightarrow> bool" where
  "first_mode xs m \<longleftrightarrow>
     m \<in> set xs \<and>
     (\<forall>x \<in> set xs. count_list xs x \<le> count_list xs m \<and>
        (count_list xs x = count_list xs m \<longrightarrow> first_index xs m \<le> first_index xs x))"




text \<open>
  A response from which a field is absent: \<open>without k\<close> removes the key \<open>k\<close> from a
  \<open>dict\<close>, \<open>under k f\<close> changes the value under the key \<open>k\<close> by \<open>f\<close>, and
  \<open>at_index i f\<close> changes the element \<open>i\<close> of a list by \<open>f\<close>.
\<close>

definition without :: "string \<Rightarrow> json \<Rightarrow> json" where
  "without k v = (case v of JObj kvs \<Rightarrow> JObj (filter (\<lambda>kv. fst kv \<noteq> k) kvs) | _ \<Rightarrow> v)"

definition under :: "string \<Rightarrow> (json \<Rightarrow> json) \<Rightarrow> json \<Rightarrow> json" where
  "under k f v =
     (case v of JObj kvs \<Rightarrow> JObj (map (\<lambda>kv. if fst kv = k then (k, f (snd kv)) else kv) kvs)
      | _ \<Rightarrow> v)"

definition at_index :: "nat \<Rightarrow> (json \<Rightarrow> json) \<Rightarrow> json \<Rightarrow> json" where
  "at_index i f v = (case v of JArr xs \<Rightarrow> JArr (if i < length xs then xs[i := f (xs ! i)] else xs) | _ \<Rightarrow> v)"

text \<open>
  The fields that \<open>get_current_weather\<close> reads, each with the key that is missing once
  it is removed.
\<close>

definition current_fields :: "(string \<times> (json \<Rightarrow> json)) list" where
  "current_fields =
     [(''name'', without ''name''),
      (''sys'', without ''sys''),
      (''country'', under ''sys'' (without ''country'')),
      (''main'', without ''main''),
      (''temp'', under ''main'' (without ''temp'')),
      (''feels_like'', under ''main'' (without ''feels_like'')),
      (''humidity'', under ''main'' (without ''humidity'')),
      (''weather'', without ''weather''),
      (''description'', under ''weather'' (at_index 0 (without ''description''))),
      (''icon'', under ''weather'' (at_index 0 (without ''icon''))),
      (''wind'', without ''wind''),
      (''speed'', under ''wind'' (without ''speed'')),
      (''pressure'', under ''main'' (without ''pressure''))]"

text \<open>The fields that \<open>get_five_day_forecast\<close> reads in a sample, and in the response.\<close>

definition sample_fields :: "(string \<times> (json \<Rightarrow> json)) list" where
  "sample_fields =
     [(''dt_txt'', without ''dt_txt''),
      (''main'', without ''main''),
      (''temp'', under ''main'' (without ''temp'')),
      (''weather'', without ''weather''),
      (''description'', under ''weather'' (at_index 0 (without ''description''))),
      (''icon'', under ''weather'' (at_index 0 (without ''icon'')))]"

definition forecast_fields :: "(string \<times> (json \<Rightarrow> json)) list" where
  "forecast_fields =
     [(''list'', without ''list''),
      (''city'', without ''city''),
      (''name'', under ''city'' (without ''name'')),
      (''country'', under ''city'' (without ''country''))]"

text \<open>A sample in which every field that is read can be read.\<close>

definition complete_sample :: "json \<Rightarrow> bool" where
  "complete_sample x \<longleftrightarrow>
     \<not> isl (sample_date x) \<and> \<not> isl (reading_temp x) \<and> \<not> isl (weather0 x ''description'')
     \<and> \<not> isl (weather0 x ''icon'')"

text \<open>
  Two samples on which every read gives the same, unless the read of the first hits
  the missing key \<open>k\<close>.
\<close>

definition same_or_missing :: "string \<Rightarrow> json \<Rightarrow> json \<Rightarrow> bool" where
  "same_or_missing k x' x \<longleftrightarrow>
     (sample_date x' = sample_date x \<or> sample_date x' = Inl (KeyError k))
     \<and> (reading_temp x' = reading_temp x \<or> reading_temp x' = Inl (KeyError k))
     \<and> (weather0 x' ''description'' = weather0 x ''description''
          \<or> weather0 x' ''description'' = Inl (KeyError k))
     \<and> (weather0 x' ''icon'' = weather0 x ''icon'' \<or> weather0 x' ''icon'' = Inl (KeyError k))"

text \<open>A response to the request for the current weather, and its \<open>WeatherData\<close>.\<close>

definition pune_now :: json where
  "pune_now =
     JObj [(''name'', JStr ''Pune''), (''sys'', JObj [(''country'', JStr ''IN'')]),
           (''main'', JObj [(''temp'', JNum (43 / 2)), (''feels_like'', JNum 22),
                            (''humidity'', JNum 40), (''pressure'', JNum 1012)]),
           (''weather'', JArr [JObj [(''description'', JStr ''clear sky''), (''icon'', JStr ''01d'')]]),
           (''wind'', JObj [(''speed'', JNum (7 / 2))])]"

definition pune_weather :: WeatherData where
  "pune_weather =
     \<lparr>WeatherData.city = JStr ''Pune'', country = JStr ''IN'', temperature = JNum (43 / 2),
      feels_like = JNum 22, humidity = JNum 40, description = ''Clear sky'', icon = JStr ''01d'',
      wind_speed = JNum (7 / 2), pressure = JNum 1012\<rparr>"

section \<open>Properties of the renderer\<close>


lemma then_do_Inr [simp]: "then_do (Inr x) f = f x"
  by (simp add: then_do_def)

lemma then_do_Inl [simp]: "then_do (Inl e) f = Inl e"
  by (simp add: then_do_def)

lemma then_do_eq_Inr: "then_do m f = Inr y \<longleftrightarrow> (\<exists>x. m = Inr x \<and> f x = Inr y)"
  by (cases m) simp_all

lemma scaled_temp_range:
  assumes "scaled_temp a lo r = Inr k"
  shows "0 \<le> k \<and> k \<le> 7"
  using assms by (auto simp: scaled_temp_def then_do_eq_Inr chart_height_def)

lemma column_pos_range:
  assumes "column_pos i n = Inr c"
  shows "0 \<le> c \<and> c \<le> 49"
  using assms by (auto simp: column_pos_def then_do_eq_Inr chart_width_def)

lemma nth_update2:
  assumes "r < length ls" and "c < length (ls ! r)" and "i < length ls"
  shows "ls[r := (ls ! r)[c := m]] ! i ! j = (if i = r \<and> j = c then m else ls ! i ! j)"
  using assms by (auto simp: nth_list_update)

lemma grid_update2:
  assumes "grid ls" and "r < 8"
  shows "grid (ls[r := (ls ! r)[c := m]])"
proof -
  have "length l = 50" if "l \<in> set (ls[r := (ls ! r)[c := m]])" for l
  proof -
    from that have "l = (ls ! r)[c := m] \<or> l \<in> set ls"
      using set_update_subset_insert[of ls] by blast
    moreover have "length (ls ! r) = 50"
      using assms by (simp add: grid_def)
    ultimately show ?thesis using assms(1) by (auto simp: grid_def)
  qed
  then show ?thesis
    using assms(1) by (simp add: grid_def)
qed

lemma cell_of_unique: "cell_of lo r n iday rc \<Longrightarrow> cell_of lo r n iday rc' \<Longrightarrow> rc = rc'"
  by (auto simp: cell_of_def)

lemma cell_of_in_chart: "cell_of lo r n iday (i, j) \<Longrightarrow> in_chart i j"
  unfolding cell_of_def in_chart_def
  using scaled_temp_range column_pos_range by fastforce

lemma plot_day_Inr:
  assumes "plot_day lo r n ls iday = Inr ls'"
  obtains k c where "scaled_temp (avg_temp (snd iday)) lo r = Inr k"
    and "column_pos (fst iday) n = Inr c"
    and "ls' = ls[nat (7 - k) := (ls ! nat (7 - k))[nat c := marker]]"
  using assms
  by (auto simp: plot_day_def then_do_eq_Inr Let_def chart_height_def)

lemma plot_day_step:
  assumes "plot_day lo r n ls iday = Inr ls'" and "grid ls"
  obtains rc where "cell_of lo r n iday rc" and "grid ls'"
    and "\<And>i j. in_chart i j \<Longrightarrow> ls' ! i ! j = (if (i, j) = rc then marker else ls ! i ! j)"
proof -
  from plot_day_Inr[OF assms(1)] obtain k c
    where k: "scaled_temp (avg_temp (snd iday)) lo r = Inr k"
      and c: "column_pos (fst iday) n = Inr c"
      and ls': "ls' = ls[nat (7 - k) := (ls ! nat (7 - k))[nat c := marker]]"
    by blast
  have cell: "cell_of lo r n iday (nat (7 - k), nat c)"
    unfolding cell_of_def using k c by blast
  then have "in_chart (nat (7 - k)) (nat c)"
    by (rule cell_of_in_chart)
  then have rlt: "nat (7 - k) < length ls" and clt: "nat c < length (ls ! nat (7 - k))"
    using assms(2) by (simp_all add: in_chart_def grid_def)
  have g: "grid ls'"
    unfolding ls' using assms(2) rlt by (intro grid_update2) (simp_all add: grid_def)
  have "ls' ! i ! j = (if (i, j) = (nat (7 - k), nat c) then marker else ls ! i ! j)"
    if "in_chart i j" for i j
  proof -
    from that have "i < length ls" using assms(2) by (simp add: in_chart_def grid_def)
    then show ?thesis unfolding ls' by (simp add: nth_update2[OF rlt clt])
  qed
  with cell g show ?thesis by (rule that)
qed

lemma fold_exn_Cons_Inr:
  assumes "fold_exn f s (x # xs) = Inr out"
  obtains s' where "f s x = Inr s'" and "fold_exn f s' xs = Inr out"
  using assms by (auto simp: then_do_eq_Inr)

lemma plot_day_marker:
  assumes rc: "cell_of lo r n x rc"
    and upd: "ls' ! i ! j = (if (i, j) = rc then marker else ls ! i ! j)"
  shows "ls' ! i ! j = marker \<longleftrightarrow> ls ! i ! j = marker \<or> cell_of lo r n x (i, j)"
proof (cases "(i, j) = rc")
  case True
  with rc upd show ?thesis by simp
next
  case False
  with rc have "\<not> cell_of lo r n x (i, j)"
    using cell_of_unique by blast
  with False upd show ?thesis by simp
qed

lemma fold_plot_cells:
  assumes "fold_exn (plot_day lo r n) ls xs = Inr out" and "grid ls"
  shows "grid out \<and> (\<forall>x \<in> set xs. \<exists>rc. cell_of lo r n x rc) \<and>
     (\<forall>i j. in_chart i j \<longrightarrow>
        (out ! i ! j = marker \<longleftrightarrow> ls ! i ! j = marker \<or> (\<exists>x \<in> set xs. cell_of lo r n x (i, j))))"
  using assms
proof (induction xs arbitrary: ls)
  case Nil
  then show ?case by simp
next
  case (Cons x xs)
  from fold_exn_Cons_Inr[OF Cons.prems(1)] obtain ls'
    where step: "plot_day lo r n ls x = Inr ls'"
      and rest: "fold_exn (plot_day lo r n) ls' xs = Inr out"
    by blast
  from plot_day_step[OF step Cons.prems(2)] obtain rc where rc: "cell_of lo r n x rc"
    and g: "grid ls'"
    and upd: "\<And>i j. in_chart i j \<Longrightarrow> ls' ! i ! j = (if (i, j) = rc then marker else ls ! i ! j)"
    by blast
  note IH = Cons.IH[OF rest g]
  have cells: "out ! i ! j = marker \<longleftrightarrow>
      ls ! i ! j = marker \<or> (\<exists>y \<in> set (x # xs). cell_of lo r n y (i, j))"
    if ij: "in_chart i j" for i j
  proof -
    have "out ! i ! j = marker \<longleftrightarrow> ls' ! i ! j = marker \<or> (\<exists>y \<in> set xs. cell_of lo r n y (i, j))"
      using IH ij by blast
    also have "ls' ! i ! j = marker \<longleftrightarrow> ls ! i ! j = marker \<or> cell_of lo r n x (i, j)"
      using rc upd[OF ij] by (rule plot_day_marker)
    finally show ?thesis by auto
  qed
  have "grid out" using IH by blast
  moreover have "\<forall>y \<in> set (x # xs). \<exists>rc. cell_of lo r n y rc"
    using IH rc by (metis set_ConsD)
  ultimately show ?case using cells by blast
qed

lemma grid_blank_chart: "grid blank_chart"
  by (simp add: grid_def blank_chart_def chart_height_def chart_width_def)

lemma blank_chart_no_marker: "in_chart i j \<Longrightarrow> blank_chart ! i ! j \<noteq> marker"
  by (simp add: in_chart_def blank_chart_def chart_height_def chart_width_def blank_def marker_def)


text \<open>
  C9. The glyph lookup is total on icon codes: a code that is not a key of
  \<open>WEATHER_ICONS\<close>, such as \<open>99x\<close>, gets the fallback glyph of the key \<open>unknown\<close>,
  and no exception is raised.
\<close>

theorem get_weather_emoji_fallback:
  "(WEATHER_ICONS icon_code = None \<longrightarrow> get_weather_emoji (JStr icon_code) = Inr fallback_glyph)
   \<and> (\<exists>g. get_weather_emoji (JStr icon_code) = Inr g)
   \<and> get_weather_emoji (JStr ''99x'') = Inr fallback_glyph
   \<and> WEATHER_ICONS ''unknown'' = Some fallback_glyph"
  by (simp add: WEATHER_ICONS_def)

theorem get_weather_emoji_fallback_witness:
  "WEATHER_ICONS ''07d'' = None \<and> get_weather_emoji (JStr ''07d'') = Inr fallback_glyph"
  using get_weather_emoji_fallback [of "''07d''"] by (simp add: WEATHER_ICONS_def)

text \<open>
  C10. \<open>display_forecast\<close> on a forecast without days raises: \<open>min\<close> over the empty
  sequence of minimum temperatures is a \<open>ValueError\<close>.
\<close>

theorem display_forecast_empty_raises:
  "display_forecast \<lparr>city = c, country = k, daily_forecasts = []\<rparr> = Inl ValueError"
  by (simp add: display_forecast_def py_min_def then_do_def)

lemma display_forecast_Inr:
  assumes "display_forecast data = Inr v"
  obtains lo hi where "py_min (map min_temp (daily_forecasts data)) = Inr lo"
    and "py_max (map max_temp (daily_forecasts data)) = Inr hi"
    and "fold_exn (plot_day lo (temp_range_of hi lo) (length (daily_forecasts data))) blank_chart
           (zip [0..<length (daily_forecasts data)] (daily_forecasts data)) = Inr (chart_lines v)"
proof -
  from assms obtain lo where lo: "py_min (map min_temp (daily_forecasts data)) = Inr lo"
    by (cases "py_min (map min_temp (daily_forecasts data))") (simp_all add: display_forecast_def)
  from assms lo obtain hi where hi: "py_max (map max_temp (daily_forecasts data)) = Inr hi"
    by (cases "py_max (map max_temp (daily_forecasts data))") (simp_all add: display_forecast_def)
  from assms lo hi obtain ps where ps: "map_exn day_panel (daily_forecasts data) = Inr ps"
    by (cases "map_exn day_panel (daily_forecasts data)") (simp_all add: display_forecast_def)
  let ?fold = "fold_exn (plot_day lo (temp_range_of hi lo) (length (daily_forecasts data))) blank_chart
           (zip [0..<length (daily_forecasts data)] (daily_forecasts data))"
  from assms lo hi ps obtain ls where ls: "?fold = Inr ls"
    by (cases ?fold) (simp_all add: display_forecast_def Let_def)
  from assms lo hi ps ls have "chart_lines v = ls"
    by (cases "map_exn (\<lambda>day. day_number (date day)) (daily_forecasts data)")
       (auto simp add: display_forecast_def Let_def)
  with lo hi ls show ?thesis by (intro that) simp_all
qed

lemma in_set_enumerate:
  "x \<in> set (zip [0..<length xs] xs) \<longleftrightarrow> (\<exists>i < length xs. x = (i, xs ! i))"
proof
  assume "x \<in> set (zip [0..<length xs] xs)"
  then obtain k where "k < length xs" and "x = ([0..<length xs] ! k, xs ! k)"
    by (auto simp: set_zip)
  then show "\<exists>i < length xs. x = (i, xs ! i)" by auto
next
  assume "\<exists>i < length xs. x = (i, xs ! i)"
  then obtain i where i: "i < length xs" "x = (i, xs ! i)" by blast
  then have "x = ([0..<length xs] ! i, xs ! i)" by simp
  with i(1) show "x \<in> set (zip [0..<length xs] xs)"
    unfolding set_zip by (intro CollectI exI[of _ i]) simp
qed

lemma display_forecast_chart:
  assumes "display_forecast data = Inr v"
    and "py_min (map min_temp (daily_forecasts data)) = Inr lo"
    and "py_max (map max_temp (daily_forecasts data)) = Inr hi"
  shows "\<forall>i < length (daily_forecasts data).
           \<exists>rc. cell_of lo (temp_range_of hi lo) (length (daily_forecasts data)) (i, daily_forecasts data ! i) rc"
    and "in_chart r c \<Longrightarrow> chart_lines v ! r ! c = marker \<longleftrightarrow>
           (\<exists>i < length (daily_forecasts data).
              cell_of lo (temp_range_of hi lo) (length (daily_forecasts data)) (i, daily_forecasts data ! i) (r, c))"
proof -
  let ?ds = "daily_forecasts data"
  let ?n = "length ?ds"
  let ?cell = "cell_of lo (temp_range_of hi lo) ?n"
  from display_forecast_Inr[OF assms(1)] assms(2,3)
  have fold: "fold_exn (plot_day lo (temp_range_of hi lo) ?n) blank_chart (zip [0..<?n] ?ds)
                = Inr (chart_lines v)"
    by auto
  note inv = fold_plot_cells[OF fold grid_blank_chart]
  have mem: "x \<in> set (zip [0..<?n] ?ds) \<longleftrightarrow> (\<exists>i < ?n. x = (i, ?ds ! i))" for x
    by (rule in_set_enumerate)
  from inv have all: "\<forall>x \<in> set (zip [0..<?n] ?ds). \<exists>rc. ?cell x rc"
    by (elim conjE)
  show "\<forall>i < ?n. \<exists>rc. ?cell (i, ?ds ! i) rc"
  proof (intro allI impI)
    fix i assume "i < ?n"
    then have "(i, ?ds ! i) \<in> set (zip [0..<?n] ?ds)" using mem by blast
    with all show "\<exists>rc. ?cell (i, ?ds ! i) rc" by (rule bspec)
  qed
  assume rc: "in_chart r c"
  from inv have "\<forall>i j. in_chart i j \<longrightarrow> (chart_lines v ! i ! j = marker \<longleftrightarrow>
      blank_chart ! i ! j = marker \<or> (\<exists>x \<in> set (zip [0..<?n] ?ds). ?cell x (i, j)))"
    by (elim conjE)
  with rc have "chart_lines v ! r ! c = marker \<longleftrightarrow>
      blank_chart ! r ! c = marker \<or> (\<exists>x \<in> set (zip [0..<?n] ?ds). ?cell x (r, c))"
    by (elim allE impE)
  also have "\<dots> \<longleftrightarrow> (\<exists>x \<in> set (zip [0..<?n] ?ds). ?cell x (r, c))"
    using blank_chart_no_marker[OF rc] by simp
  also have "\<dots> \<longleftrightarrow> (\<exists>i < ?n. ?cell (i, ?ds ! i) (r, c))"
    by (metis mem)
  finally show "chart_lines v ! r ! c = marker \<longleftrightarrow> (\<exists>i < ?n. ?cell (i, ?ds ! i) (r, c))" .
qed


lemma display_one_day: "display_forecast one_day = Inr one_day_view"
  by code_simp

lemma scaled_temp_Inr:
  assumes "scaled_temp a lo r = Inr k"
  obtains ratio x where "fdiv (fsub a lo) r = Inr ratio" and "fmul ratio (Fin 7) = Fin x"
    and "k = max 0 (min (py_trunc x) 7)"
proof -
  from assms obtain ratio k' where ratio: "fdiv (fsub a lo) r = Inr ratio"
    and k': "py_int (fmul ratio (Fin 7)) = Inr k'" and k: "k = max 0 (min k' 7)"
    by (auto simp: scaled_temp_def then_do_eq_Inr chart_height_def)
  from k' obtain x where "fmul ratio (Fin 7) = Fin x" and "k' = py_trunc x"
    by (cases "fmul ratio (Fin 7)") auto
  with ratio k show ?thesis by (intro that) simp_all
qed

text \<open>
  C4, as stated, fails: with \<open>min_temp_all = 10\<close>, \<open>max_temp_all = 30\<close> and an average
  of \<open>20\<close> the code computes \<open>int(3.5) = 3\<close>, where the rounding of the claim gives
  row \<open>4\<close>.
\<close>

theorem scaled_temp_counterexample:
  "scaled_temp (Fin 20) (Fin 10) (temp_range_of (Fin 30) (Fin 10)) = Inr 3
   \<and> spec_scaled_row 20 10 (30 - 10) = 4"
  by code_simp

text \<open>
  C4, amended. Whenever \<open>display_forecast\<close> returns, the marker of day \<open>i\<close> stands
  in the line \<open>chart_height - 1 - row\<close>, where \<open>row\<close> is the float
  \<open>((avg_temp - min_temp_all) / temp_range) * 7\<close> truncated towards zero by \<open>int\<close>
  and clamped into \<open>0..7\<close>; \<open>min_temp_all\<close> and \<open>max_temp_all\<close> are the minimum
  and maximum over all days. With a minimum of \<open>10\<close>, a maximum of \<open>30\<close> and an average
  of \<open>20\<close> the row is \<open>3\<close>.
\<close>

theorem display_forecast_scaled_row:
  assumes "display_forecast data = Inr v" and "i < length (daily_forecasts data)"
  shows "(\<exists>lo hi ratio x c.
      py_min (map min_temp (daily_forecasts data)) = Inr lo
      \<and> py_max (map max_temp (daily_forecasts data)) = Inr hi
      \<and> fdiv (fsub (avg_temp (daily_forecasts data ! i)) lo) (temp_range_of hi lo) = Inr ratio
      \<and> fmul ratio (Fin 7) = Fin x
      \<and> column_pos i (length (daily_forecasts data)) = Inr c
      \<and> chart_lines v ! nat (7 - max 0 (min (py_trunc x) 7)) ! nat c = marker)
    \<and> scaled_temp (Fin 20) (Fin 10) (temp_range_of (Fin 30) (Fin 10)) = Inr 3"
proof -
  have example: "scaled_temp (Fin 20) (Fin 10) (temp_range_of (Fin 30) (Fin 10)) = Inr 3"
    by code_simp
  let ?ds = "daily_forecasts data"
  from display_forecast_Inr[OF assms(1)] obtain lo hi
    where lo: "py_min (map min_temp ?ds) = Inr lo" and hi: "py_max (map max_temp ?ds) = Inr hi"
    by blast
  note chart = display_forecast_chart[OF assms(1) lo hi]
  from chart(1) assms(2) obtain rc
    where rc: "cell_of lo (temp_range_of hi lo) (length ?ds) (i, ?ds ! i) rc"
    by blast
  then obtain k c where k: "scaled_temp (avg_temp (?ds ! i)) lo (temp_range_of hi lo) = Inr k"
    and c: "column_pos i (length ?ds) = Inr c" and rc_eq: "rc = (nat (7 - k), nat c)"
    by (auto simp: cell_of_def)
  from rc rc_eq have "in_chart (nat (7 - k)) (nat c)"
    using cell_of_in_chart by blast
  from chart(2)[OF this] rc rc_eq assms(2) have m: "chart_lines v ! nat (7 - k) ! nat c = marker"
    by blast
  from scaled_temp_Inr[OF k] obtain ratio x
    where "fdiv (fsub (avg_temp (?ds ! i)) lo) (temp_range_of hi lo) = Inr ratio"
      and "fmul ratio (Fin 7) = Fin x" and "k = max 0 (min (py_trunc x) 7)"
    by blast
  with lo hi c m example show ?thesis by blast
qed

theorem display_forecast_scaled_row_witness:
  "display_forecast one_day = Inr one_day_view \<and> 0 < length (daily_forecasts one_day)
   \<and> (\<exists>lo hi ratio x c.
      py_min (map min_temp (daily_forecasts one_day)) = Inr lo
      \<and> py_max (map max_temp (daily_forecasts one_day)) = Inr hi
      \<and> fdiv (fsub (avg_temp (daily_forecasts one_day ! 0)) lo) (temp_range_of hi lo) = Inr ratio
      \<and> fmul ratio (Fin 7) = Fin x
      \<and> column_pos 0 (length (daily_forecasts one_day)) = Inr c
      \<and> chart_lines one_day_view ! nat (7 - max 0 (min (py_trunc x) 7)) ! nat c = marker)"
proof -
  have len: "0 < length (daily_forecasts one_day)"
    by (simp add: one_day_def)
  from display_forecast_scaled_row[OF display_one_day len] display_one_day len
  show ?thesis by blast
qed

lemma display_two_days: "display_forecast two_days = Inr two_days_view"
  by code_simp

lemma column_pos_Inr:
  assumes "column_pos i n = Inr c"
  shows "(1 < n \<and> (\<exists>y. fmul (fl (of_nat i / of_nat (n - 1))) (Fin 49) = Fin y
                        \<and> c = max 0 (min (py_trunc y) 49)))
         \<or> (n \<le> 1 \<and> c = 0)"
proof (cases "1 < n")
  case True
  then have n1: "int n - 1 \<noteq> 0" and eq: "(of_int (int n - 1) :: rat) = of_nat (n - 1)"
    by (simp_all add: of_nat_diff)
  from assms True n1 obtain k where k: "py_int (fmul (fl (of_int (int i) / of_int (int n - 1))) (Fin 49)) = Inr k"
    and c: "c = max 0 (min k 49)"
    by (auto simp: column_pos_def then_do_eq_Inr int_truediv_def chart_width_def)
  from k obtain y where "fmul (fl (of_int (int i) / of_int (int n - 1))) (Fin 49) = Fin y" "k = py_trunc y"
    by (cases "fmul (fl (of_int (int i) / of_int (int n - 1))) (Fin 49)") auto
  with c True eq show ?thesis by auto
next
  case False
  with assms show ?thesis
    by (auto simp: column_pos_def chart_width_def)
qed

text \<open>
  C5, as stated, fails: for day \<open>3\<close> of \<open>5\<close> the code computes
  \<open>int(0.75 * 49) = int(36.75) = 36\<close>, where the rounding of the claim gives column \<open>37\<close>.
\<close>

theorem column_pos_counterexample:
  "column_pos 3 5 = Inr 36 \<and> spec_column 3 5 = 37"
  by code_simp

text \<open>
  C5, amended. Whenever \<open>display_forecast\<close> returns, the marker of day \<open>i\<close> of \<open>n\<close>
  stands in column \<open>0\<close> when \<open>n = 1\<close>, and for \<open>n > 1\<close> in the column given by the
  float \<open>(i / (n - 1)) * 49\<close> truncated towards zero by \<open>int\<close> and clamped into
  \<open>0..49\<close>.
\<close>

theorem display_forecast_column:
  assumes "display_forecast data = Inr v" and "i < length (daily_forecasts data)"
  shows "\<exists>lo hi k c.
      py_min (map min_temp (daily_forecasts data)) = Inr lo
      \<and> py_max (map max_temp (daily_forecasts data)) = Inr hi
      \<and> scaled_temp (avg_temp (daily_forecasts data ! i)) lo (temp_range_of hi lo) = Inr k
      \<and> chart_lines v ! nat (7 - k) ! nat c = marker
      \<and> ((1 < length (daily_forecasts data)
           \<and> (\<exists>y. fmul (fl (of_nat i / of_nat (length (daily_forecasts data) - 1))) (Fin 49) = Fin y
                  \<and> c = max 0 (min (py_trunc y) 49)))
          \<or> (length (daily_forecasts data) = 1 \<and> c = 0))"
proof -
  let ?ds = "daily_forecasts data"
  from display_forecast_Inr[OF assms(1)] obtain lo hi
    where lo: "py_min (map min_temp ?ds) = Inr lo" and hi: "py_max (map max_temp ?ds) = Inr hi"
    by blast
  note chart = display_forecast_chart[OF assms(1) lo hi]
  from chart(1) assms(2) obtain rc
    where rc: "cell_of lo (temp_range_of hi lo) (length ?ds) (i, ?ds ! i) rc"
    by blast
  then obtain k c where k: "scaled_temp (avg_temp (?ds ! i)) lo (temp_range_of hi lo) = Inr k"
    and c: "column_pos i (length ?ds) = Inr c" and rc_eq: "rc = (nat (7 - k), nat c)"
    by (auto simp: cell_of_def)
  from rc rc_eq have "in_chart (nat (7 - k)) (nat c)"
    using cell_of_in_chart by blast
  from chart(2)[OF this] rc rc_eq assms(2) have m: "chart_lines v ! nat (7 - k) ! nat c = marker"
    by blast
  from assms(2) have "length ?ds \<le> 1 \<longleftrightarrow> length ?ds = 1"
    by auto
  with column_pos_Inr[OF c] lo hi k m show ?thesis by blast
qed

theorem display_forecast_column_witness:
  "display_forecast two_days = Inr two_days_view \<and> 1 < length (daily_forecasts two_days)
   \<and> (\<exists>lo hi k c.
      py_min (map min_temp (daily_forecasts two_days)) = Inr lo
      \<and> py_max (map max_temp (daily_forecasts two_days)) = Inr hi
      \<and> scaled_temp (avg_temp (daily_forecasts two_days ! 1)) lo (temp_range_of hi lo) = Inr k
      \<and> chart_lines two_days_view ! nat (7 - k) ! nat c = marker
      \<and> ((1 < length (daily_forecasts two_days)
           \<and> (\<exists>y. fmul (fl (of_nat 1 / of_nat (length (daily_forecasts two_days) - 1))) (Fin 49) = Fin y
                  \<and> c = max 0 (min (py_trunc y) 49)))
          \<or> (length (daily_forecasts two_days) = 1 \<and> c = 0)))"
proof -
  have len: "1 < length (daily_forecasts two_days)"
    by (simp add: two_days_def)
  from display_forecast_column[OF display_two_days len] display_two_days len
  show ?thesis by blast
qed

section \<open>Properties of the float model\<close>

text \<open>
  \<open>ilog2\<close> is the binary exponent; rounding keeps a value within the next power of two,
  leaves a value with a 53-bit significand unchanged, and returns only such values.
\<close>

lemma powi2_less_iff: "(2::rat) powi m < 2 powi n \<longleftrightarrow> m < n"
proof
  assume "(2::rat) powi m < 2 powi n"
  show "m < n"
  proof (rule ccontr)
    assume "\<not> m < n"
    then have "(2::rat) powi n \<le> 2 powi m"
      by (intro power_int_increasing) auto
    with \<open>(2::rat) powi m < 2 powi n\<close> show False by simp
  qed
next
  assume "m < n"
  then show "(2::rat) powi m < 2 powi n"
    by (intro power_int_strict_increasing) auto
qed


lemma bitlen_powi_bounds:
  assumes "0 < a"
  shows "(2::rat) powi (bitlen a - 1) \<le> of_int a" and "of_int a < (2::rat) powi (bitlen a)"
proof -
  from bitlen_bounds[OF assms] have lo: "2 ^ nat (bitlen a - 1) \<le> a" and hi: "a < 2 ^ nat (bitlen a)"
    by auto
  have pos: "1 \<le> bitlen a"
    using assms bitlen_eq_zero_iff[of a] bitlen_nonneg[of a] by linarith
  have "(2::rat) powi (bitlen a - 1) = 2 ^ nat (bitlen a - 1)"
    using pos by (simp add: power_int_def)
  also have "\<dots> = of_int (2 ^ nat (bitlen a - 1))" by simp
  also have "\<dots> \<le> of_int a" using lo by (simp only: of_int_le_iff)
  finally show "(2::rat) powi (bitlen a - 1) \<le> of_int a" .
  have "(of_int a :: rat) < of_int (2 ^ nat (bitlen a))" using hi by (simp only: of_int_less_iff)
  also have "\<dots> = 2 ^ nat (bitlen a)" by simp
  also have "\<dots> = (2::rat) powi (bitlen a)"
    using pos by (simp add: power_int_def)
  finally show "of_int a < (2::rat) powi (bitlen a)" .
qed

lemma ilog2_bounds:
  assumes "q \<noteq> 0"
  shows "2 powi (ilog2 q) \<le> \<bar>q\<bar>" and "\<bar>q\<bar> < 2 powi (ilog2 q + 1)"
proof -
  obtain a b where ab: "quotient_of \<bar>q\<bar> = (a, b)" by (cases "quotient_of \<bar>q\<bar>")
  then have b: "0 < b" and q: "\<bar>q\<bar> = of_int a / of_int b"
    using quotient_of_denom_pos[OF ab] quotient_of_div[OF ab] by auto
  from assms have "0 < \<bar>q\<bar>" by simp
  with q b have a: "0 < a"
    by (simp add: zero_less_divide_iff)
  define e where "e = bitlen a - bitlen b"
  have il: "ilog2 q = (if 2 powi e \<le> \<bar>q\<bar> then e else e - 1)"
    by (simp add: ilog2_def ab e_def Let_def)
  note A = bitlen_powi_bounds[OF a] and B = bitlen_powi_bounds[OF b]
  have bpos: "(0::rat) < of_int b" using b by simp
  have "\<bar>q\<bar> < 2 powi (bitlen a) / 2 powi (bitlen b - 1)"
    unfolding q using A(2) B(1) bpos a
    by (intro frac_less) (auto intro: less_imp_le)
  also have "\<dots> = 2 powi (bitlen a - (bitlen b - 1))"
    by (simp only: power_int_diff[of "2::rat", simplified])
  also have "bitlen a - (bitlen b - 1) = e + 1"
    by (simp add: e_def)
  finally have up: "\<bar>q\<bar> < 2 powi (e + 1)" .
  have "e - 1 = (bitlen a - 1) - bitlen b"
    by (simp add: e_def)
  then have "2 powi (e - 1) = (2::rat) powi (bitlen a - 1) / 2 powi (bitlen b)"
    by (simp only: power_int_diff[of "2::rat", simplified])
  also have "\<dots> \<le> \<bar>q\<bar>"
    unfolding q using A(1) B(2) bpos a
    by (intro frac_le) (auto intro: less_imp_le)
  finally have low: "2 powi (e - 1) \<le> \<bar>q\<bar>" .
  show "2 powi (ilog2 q) \<le> \<bar>q\<bar>"
    using low by (simp add: il)
  show "\<bar>q\<bar> < 2 powi (ilog2 q + 1)"
    using up by (auto simp: il not_le)
qed

lemma ilog2_unique:
  assumes "2 powi k \<le> \<bar>q\<bar>" and "\<bar>q\<bar> < 2 powi (k + 1)"
  shows "ilog2 q = k"
proof -
  have "(0::rat) < 2 powi k" by simp
  from this assms(1) have "0 < \<bar>q\<bar>" by (rule less_le_trans)
  then have q: "q \<noteq> 0" by simp
  note b = ilog2_bounds[OF q]
  from b(1) assms(2) have "(2::rat) powi (ilog2 q) < 2 powi (k + 1)" by (rule le_less_trans)
  then have "ilog2 q < k + 1" by (simp only: powi2_less_iff)
  moreover from assms(1) b(2) have "(2::rat) powi k < 2 powi (ilog2 q + 1)" by (rule le_less_trans)
  then have "k < ilog2 q + 1" by (simp only: powi2_less_iff)
  ultimately show ?thesis by simp
qed


lemma round_half_even_of_int [simp]: "round_half_even (of_int n) = n"
  by (simp add: round_half_even_def)





lemma ilog2_zero: "ilog2 0 = - 2"
  by code_simp

lemma finite_or_inf_Fin:
  assumes "\<bar>r\<bar> < 2 ^ 1024"
  shows "finite_or_inf r = Fin r"
proof (cases "r = 0")
  case True
  then show ?thesis by (simp add: finite_or_inf_def ilog2_zero)
next
  case False
  from ilog2_bounds(1)[OF False] assms have "(2::rat) powi (ilog2 r) < 2 powi 1024"
    by simp
  then have "ilog2 r < 1024" by (simp only: powi2_less_iff)
  then show ?thesis by (simp add: finite_or_inf_def)
qed


lemma ulp_of_pos: "0 < ulp_of q"
  by (simp add: ulp_of_def)

lemma fl_zero [simp]: "fl 0 = Fin 0"
  by (simp add: fl_def)



lemma fl_exact:
  assumes q: "q = of_int m * 2 powi e" and m: "\<bar>m\<bar> < 2 ^ 53" and e: "- 1074 \<le> e"
    and fin: "\<bar>q\<bar> < 2 ^ 1024"
  shows "fl q = Fin q"
proof (cases "q = 0")
  case True
  then show ?thesis by simp
next
  case False
  define E where "E = max (ilog2 q - 52) (- 1074)"
  define u :: rat where "u = 2 powi E"
  have u: "ulp_of q = u" by (simp add: ulp_of_def u_def E_def)
  have "\<bar>q\<bar> = of_int \<bar>m\<bar> * 2 powi e"
    by (simp add: q abs_mult)
  also have "\<dots> < of_int (2 ^ 53) * 2 powi e"
    using m by (intro mult_strict_right_mono) (simp_all only: of_int_less_iff zero_less_power_int zero_less_numeral)
  also have "\<dots> = 2 powi (53 + e)"
    by (simp add: power_int_add)
  finally have "\<bar>q\<bar> < 2 powi (53 + e)" .
  with ilog2_bounds(1)[OF False] have "(2::rat) powi (ilog2 q) < 2 powi (53 + e)"
    by (rule le_less_trans)
  then have "ilog2 q < 53 + e" by (simp only: powi2_less_iff)
  with e have Ee: "E \<le> e" by (simp add: E_def)
  have "q / u = of_int m * (2 powi e / 2 powi E)"
    by (simp add: q u_def)
  also have "2 powi e / (2::rat) powi E = 2 powi (e - E)"
    by (simp only: power_int_diff[of "2::rat", simplified])
  also have "\<dots> = of_int (2 ^ nat (e - E))"
    using Ee by (simp add: power_int_def)
  finally have "q / u = of_int (m * 2 ^ nat (e - E))"
    by simp
  then have "round_half_even (q / u) = m * 2 ^ nat (e - E)"
    by (simp only: round_half_even_of_int)
  then have "round_to u q = (q / u) * u"
    using \<open>q / u = of_int (m * 2 ^ nat (e - E))\<close> by (simp only: round_to_def)
  also have "\<dots> = q" by (simp add: u_def)
  finally have "round_to u q = q" .
  with False finite_or_inf_Fin[OF fin] show ?thesis
    by (simp add: fl_def u)
qed



section \<open>The flat chart\<close>













section \<open>Properties of the aggregation\<close>

lemma fl_not_NaN [simp]: "fl q \<noteq> NaN"
  by (simp add: fl_def finite_or_inf_def)

lemma fl_one [simp]: "fl 1 = Fin 1"
  using fl_exact[of 1 1 0] by simp





lemma map_exn_Inr:
  assumes "map_exn f xs = Inr ys"
  shows "list_all2 (\<lambda>x y. f x = Inr y) xs ys"
  using assms
proof (induction xs arbitrary: ys)
  case Nil
  then show ?case by simp
next
  case (Cons x xs)
  then obtain y ys' where "f x = Inr y" and "map_exn f xs = Inr ys'" and "ys = y # ys'"
    by (auto simp: then_do_eq_Inr)
  with Cons.IH show ?case by simp
qed

lemma add_reading_keys:
  "map fst (add_reading d item g) = (if d \<in> fst ` set g then map fst g else map fst g @ [d])"
  by (induction g) force+

lemma add_reading_distinct:
  assumes "distinct (map fst g)"
  shows "distinct (map fst (add_reading d item g))"
  using assms by (simp add: add_reading_keys)

lemma group_fold_distinct:
  assumes "fold_exn (\<lambda>g item. then_do (sample_date item) (\<lambda>d. Inr (add_reading d item g))) g0 items = Inr g"
    and "distinct (map fst g0)"
  shows "distinct (map fst g)"
  using assms
proof (induction items arbitrary: g0)
  case Nil
  then show ?case by simp
next
  case (Cons item items)
  from fold_exn_Cons_Inr[OF Cons.prems(1)] obtain g1
    where step: "then_do (sample_date item) (\<lambda>d. Inr (add_reading d item g0)) = Inr g1"
      and rest: "fold_exn (\<lambda>g item. then_do (sample_date item) (\<lambda>d. Inr (add_reading d item g))) g1 items = Inr g"
    by blast
  from step obtain d where "g1 = add_reading d item g0"
    by (auto simp: then_do_eq_Inr)
  with Cons.prems(2) have "distinct (map fst g1)"
    by (simp only: add_reading_distinct)
  with rest show ?case by (rule Cons.IH)
qed

lemma forecast_by_day_distinct:
  assumes "forecast_by_day items = Inr g"
  shows "distinct (map fst g)"
  using group_fold_distinct[of "[]" items g] assms by (simp add: forecast_by_day_def)

lemma daily_forecast_date:
  assumes "daily_forecast d rs = Inr df"
  shows "date df = d"
  using assms by (auto simp: daily_forecast_def then_do_eq_Inr)

lemma forecast_of_Inr:
  assumes "forecast_of data = Inr fc"
  obtains items groups days where "then_do (subscript data ''list'') iterate = Inr items"
    and "forecast_by_day items = Inr groups"
    and "list_all2 (\<lambda>g df. daily_forecast (fst g) (snd g) = Inr df) groups days"
    and "daily_forecasts fc = sort_key date days"
proof -
  from assms obtain items groups days where "then_do (subscript data ''list'') iterate = Inr items"
    and "forecast_by_day items = Inr groups"
    and "map_exn (\<lambda>g. daily_forecast (fst g) (snd g)) groups = Inr days"
    and "daily_forecasts fc = sort_key date days"
    by (auto simp: forecast_of_def then_do_eq_Inr)
  with map_exn_Inr[of "\<lambda>g. daily_forecast (fst g) (snd g)" groups days] show ?thesis
    by (intro that)
qed

lemma get_five_day_forecast_Returned:
  assumes "get_five_day_forecast data = Returned fc"
  shows "forecast_of data = Inr fc"
  using assms
  by (auto simp: get_five_day_forecast_def split: if_splits sum.splits exn.splits)

lemma days_dates:
  assumes "list_all2 (\<lambda>g df. daily_forecast (fst g) (snd g) = Inr df) groups days"
  shows "map date days = map fst groups"
  using assms by (induction rule: list_all2_induct) (simp_all add: daily_forecast_date)

text \<open>
  C2. In every \<open>ForecastData\<close> that \<open>get_five_day_forecast\<close> returns, the dates of
  \<open>daily_forecasts\<close> are strictly increasing as strings in sequence order, hence pairwise
  distinct: the groups are the keys of a \<open>dict\<close>, and the list is sorted by date.
\<close>

theorem forecast_dates_strictly_increasing:
  assumes "get_five_day_forecast data = Returned fc"
  shows "sorted_wrt (<) (map date (daily_forecasts fc)) \<and> distinct (map date (daily_forecasts fc))"
proof -
  from forecast_of_Inr[OF get_five_day_forecast_Returned[OF assms]] obtain items groups days
    where g: "forecast_by_day items = Inr groups"
      and d: "list_all2 (\<lambda>g df. daily_forecast (fst g) (snd g) = Inr df) groups days"
      and s: "daily_forecasts fc = sort_key date days"
    by blast
  have "distinct (map date days)"
    using forecast_by_day_distinct[OF g] by (simp only: days_dates[OF d])
  then have "distinct (map date (sort_key date days))"
    by (simp add: distinct_map)
  moreover have "sorted (map date (sort_key date days))"
    by (rule sorted_sort_key)
  ultimately show ?thesis
    by (simp add: s strict_sorted_iff)
qed


lemma get_mixed_forecast: "get_five_day_forecast mixed_response = Returned mixed_forecast"
  by code_simp

theorem forecast_dates_strictly_increasing_witness:
  "get_five_day_forecast mixed_response = Returned mixed_forecast
   \<and> sorted_wrt (<) (map date (daily_forecasts mixed_forecast))
   \<and> distinct (map date (daily_forecasts mixed_forecast))"
  using forecast_dates_strictly_increasing[OF get_mixed_forecast] get_mixed_forecast by simp





lemma fle_Fin [simp]: "fle (Fin a) (Fin b) \<longleftrightarrow> a \<le> b"
  by (auto simp: fle_def feq_def)

lemma fle_not_NaN: "fle x y \<Longrightarrow> x \<noteq> NaN \<and> y \<noteq> NaN"
  by (cases x; cases y) (auto simp: fle_def feq_def)






lemma readings_of_add_reading:
  "readings_of (add_reading d item g) k = readings_of g k @ (if k = d then [item] else [])"
  by (induction g) (auto simp: readings_of_def)

lemma add_reading_nonempty:
  assumes "\<forall>p \<in> set g. snd p \<noteq> []"
  shows "\<forall>p \<in> set (add_reading d item g). snd p \<noteq> []"
  using assms by (induction g) (force split: if_splits)+

lemma group_fold_readings:
  assumes "fold_exn (\<lambda>g item. then_do (sample_date item) (\<lambda>d. Inr (add_reading d item g))) g0 items = Inr g"
    and "\<forall>p \<in> set g0. snd p \<noteq> []"
  shows "readings_of g k = readings_of g0 k @ filter (\<lambda>item. sample_date item = Inr k) items
    \<and> (\<forall>p \<in> set g. snd p \<noteq> [])"
  using assms
proof (induction items arbitrary: g0)
  case Nil
  then show ?case by simp
next
  case (Cons item items)
  from fold_exn_Cons_Inr[OF Cons.prems(1)] obtain g1
    where step: "then_do (sample_date item) (\<lambda>d. Inr (add_reading d item g0)) = Inr g1"
      and rest: "fold_exn (\<lambda>g item. then_do (sample_date item) (\<lambda>d. Inr (add_reading d item g))) g1 items = Inr g"
    by blast
  from step obtain d where d: "sample_date item = Inr d" and g1: "g1 = add_reading d item g0"
    by (auto simp: then_do_eq_Inr)
  from Cons.prems(2) have ne: "\<forall>p \<in> set g1. snd p \<noteq> []"
    unfolding g1 by (rule add_reading_nonempty)
  from Cons.IH[OF rest ne]
  have IH1: "readings_of g k = readings_of g1 k @ filter (\<lambda>item. sample_date item = Inr k) items"
    and IH2: "\<forall>p \<in> set g. snd p \<noteq> []"
    by blast+
  from IH1 have "readings_of g k
      = readings_of g0 k @ filter (\<lambda>item. sample_date item = Inr k) (item # items)"
    by (auto simp: g1 readings_of_add_reading d)
  with IH2 show ?case by blast
qed
















section \<open>The most common description and icon\<close>


lemma nth_first_index: "x \<in> set xs \<Longrightarrow> xs ! first_index xs x = x"
  by (induction xs) (auto simp: first_index_def)



lemma first_index_inj:
  assumes "x \<in> set xs" and "y \<in> set xs" and "first_index xs x = first_index xs y"
  shows "x = y"
  using assms nth_first_index by metis



lemma first_mode_unique:
  assumes "first_mode xs m" and "first_mode xs m'"
  shows "m = m'"
proof -
  from assms have mem: "m \<in> set xs" "m' \<in> set xs"
    by (simp_all add: first_mode_def)
  from assms mem have "count_list xs m = count_list xs m'"
    unfolding first_mode_def by (meson order_antisym)
  with assms mem have "first_index xs m = first_index xs m'"
    unfolding first_mode_def by (metis order_antisym)
  with mem show ?thesis by (rule first_index_inj)
qed





















section \<open>Missing fields\<close>

lemma map_of_filter_key:
  "map_of (filter (\<lambda>kv. fst kv \<noteq> k) kvs) k' = (if k' = k then None else map_of kvs k')"
  by (induction kvs) auto

lemma map_of_map_key:
  "map_of (map (\<lambda>kv. if fst kv = k then (k, f (snd kv)) else kv) kvs) k'
     = (if k' = k then map_option f (map_of kvs k) else map_of kvs k')"
  by (induction kvs) auto

lemma subscript_without:
  "subscript (without k (JObj kvs)) k' = (if k' = k then Inl (KeyError k) else subscript (JObj kvs) k')"
  by (simp add: without_def map_of_filter_key)

lemma subscript_under:
  "subscript (under k f (JObj kvs)) k'
     = (if k' = k then then_do (subscript (JObj kvs) k) (\<lambda>u. Inr (f u)) else subscript (JObj kvs) k')"
  by (simp add: under_def map_of_map_key split: option.splits)

lemma subscript_Inr_JObj:
  assumes "subscript v k = Inr u"
  obtains kvs where "v = JObj kvs" and "map_of kvs k = Some u"
  using assms by (cases v) (auto split: option.splits)

lemma subscript0_at_index:
  assumes "subscript0 v = Inr x"
  shows "subscript0 (at_index 0 f v) = Inr (case v of JArr xs \<Rightarrow> f x | _ \<Rightarrow> x)"
  using assms by (cases v rule: subscript0.cases) (simp_all add: at_index_def)


lemma filter_key_nonempty:
  assumes "map_of kvs k' = Some v" and "k' \<noteq> k"
  shows "filter (\<lambda>kv. fst kv \<noteq> k) kvs \<noteq> []"
proof -
  from assms(1) have "(k', v) \<in> set kvs" by (rule map_of_SomeD)
  with assms(2) show ?thesis by (force simp: filter_empty_conv)
qed

lemma subscript0_Inr_subscript:
  assumes "subscript0 v = Inr x" and "subscript x k = Inr u"
  obtains xs where "v = JArr (x # xs)"
  using assms by (cases v rule: subscript0.cases) auto

lemma current_weather_shape:
  assumes "current_weather_of data = Inr w"
  obtains kvs nm skvs ctry mkvs t fl' hum pr wkvs ws s ic vkvs sp where
    "data = JObj kvs"
    "map_of kvs ''name'' = Some nm"
    "map_of kvs ''sys'' = Some (JObj skvs)" "map_of skvs ''country'' = Some ctry"
    "map_of kvs ''main'' = Some (JObj mkvs)" "map_of mkvs ''temp'' = Some t"
    "map_of mkvs ''feels_like'' = Some fl'" "map_of mkvs ''humidity'' = Some hum"
    "map_of mkvs ''pressure'' = Some pr"
    "map_of kvs ''weather'' = Some (JArr (JObj wkvs # ws))"
    "map_of wkvs ''description'' = Some (JStr s)" "map_of wkvs ''icon'' = Some ic"
    "map_of kvs ''wind'' = Some (JObj vkvs)" "map_of vkvs ''speed'' = Some sp"
proof -
  from assms obtain nm sysv ctry mainv t mainv2 fl' mainv3 hum wv w0 dv d wv2 w02 ic windv sp mainv4 pr
    where nm: "subscript data ''name'' = Inr nm"
      and sys: "subscript data ''sys'' = Inr sysv" "subscript sysv ''country'' = Inr ctry"
      and main: "subscript data ''main'' = Inr mainv" "subscript mainv ''temp'' = Inr t"
      and main2: "subscript data ''main'' = Inr mainv2" "subscript mainv2 ''feels_like'' = Inr fl'"
      and main3: "subscript data ''main'' = Inr mainv3" "subscript mainv3 ''humidity'' = Inr hum"
      and wv: "subscript data ''weather'' = Inr wv" "subscript0 wv = Inr w0"
              "subscript w0 ''description'' = Inr dv" "py_capitalize dv = Inr d"
      and wv2: "subscript data ''weather'' = Inr wv2" "subscript0 wv2 = Inr w02"
               "subscript w02 ''icon'' = Inr ic"
      and wind: "subscript data ''wind'' = Inr windv" "subscript windv ''speed'' = Inr sp"
      and main4: "subscript data ''main'' = Inr mainv4" "subscript mainv4 ''pressure'' = Inr pr"
    unfolding current_weather_of_def subscript2_def weather0_def then_do_eq_Inr by blast
  from main main2 main3 main4 have m: "mainv2 = mainv" "mainv3 = mainv" "mainv4 = mainv" by simp_all
  from wv wv2 have w: "wv2 = wv" "w02 = w0" by simp_all
  from nm obtain kvs where kvs: "data = JObj kvs" "map_of kvs ''name'' = Some nm"
    by (rule subscript_Inr_JObj)
  from sys(2) obtain skvs where skvs: "sysv = JObj skvs" "map_of skvs ''country'' = Some ctry"
    by (rule subscript_Inr_JObj)
  from main(2) obtain mkvs where mkvs: "mainv = JObj mkvs" "map_of mkvs ''temp'' = Some t"
    by (rule subscript_Inr_JObj)
  from wv(3) obtain wkvs where wkvs: "w0 = JObj wkvs" "map_of wkvs ''description'' = Some dv"
    by (rule subscript_Inr_JObj)
  from wv(2,3) obtain ws where ws: "wv = JArr (w0 # ws)"
    by (rule subscript0_Inr_subscript)
  from wv(4) obtain s where s: "dv = JStr s" by (cases dv) auto
  from wind(2) obtain vkvs where vkvs: "windv = JObj vkvs" "map_of vkvs ''speed'' = Some sp"
    by (rule subscript_Inr_JObj)
  show ?thesis
  proof (rule that[of kvs nm skvs ctry mkvs t fl' hum pr wkvs ws s ic vkvs sp])
    show "data = JObj kvs" by (rule kvs(1))
    show "map_of kvs ''name'' = Some nm" by (rule kvs(2))
    show "map_of kvs ''sys'' = Some (JObj skvs)"
      using sys(1) by (simp add: kvs(1) skvs(1) split: option.splits)
    show "map_of skvs ''country'' = Some ctry" by (rule skvs(2))
    show "map_of kvs ''main'' = Some (JObj mkvs)"
      using main(1) by (simp add: kvs(1) mkvs(1) split: option.splits)
    show "map_of mkvs ''temp'' = Some t" by (rule mkvs(2))
    show "map_of mkvs ''feels_like'' = Some fl'"
      using main2(2) by (simp add: m mkvs(1) split: option.splits)
    show "map_of mkvs ''humidity'' = Some hum"
      using main3(2) by (simp add: m mkvs(1) split: option.splits)
    show "map_of mkvs ''pressure'' = Some pr"
      using main4(2) by (simp add: m mkvs(1) split: option.splits)
    show "map_of kvs ''weather'' = Some (JArr (JObj wkvs # ws))"
      using wv(1) by (simp add: kvs(1) ws wkvs(1) split: option.splits)
    show "map_of wkvs ''description'' = Some (JStr s)" using wkvs(2) by (simp add: s)
    show "map_of wkvs ''icon'' = Some ic"
      using wv2(3) by (simp add: w wkvs(1) split: option.splits)
    show "map_of kvs ''wind'' = Some (JObj vkvs)"
      using wind(1) by (simp add: kvs(1) vkvs(1) split: option.splits)
    show "map_of vkvs ''speed'' = Some sp" by (rule vkvs(2))
  qed
qed


lemma get_current_weather_Returned:
  assumes "get_current_weather data = Returned w"
  shows "current_weather_of data = Inr w"
  using assms
  by (auto simp: get_current_weather_def split: if_splits sum.splits exn.splits)

lemma current_missing:
  assumes "get_current_weather data = Returned w"
  shows "\<forall>p \<in> set current_fields. get_current_weather (snd p data) = ParseFailure (fst p)"
proof -
  from current_weather_shape[OF get_current_weather_Returned[OF assms]]
  obtain kvs nm skvs ctry mkvs t fl' hum pr wkvs ws s ic vkvs sp where
    shape: "data = JObj kvs"
    "map_of kvs ''name'' = Some nm"
    "map_of kvs ''sys'' = Some (JObj skvs)" "map_of skvs ''country'' = Some ctry"
    "map_of kvs ''main'' = Some (JObj mkvs)" "map_of mkvs ''temp'' = Some t"
    "map_of mkvs ''feels_like'' = Some fl'" "map_of mkvs ''humidity'' = Some hum"
    "map_of mkvs ''pressure'' = Some pr"
    "map_of kvs ''weather'' = Some (JArr (JObj wkvs # ws))"
    "map_of wkvs ''description'' = Some (JStr s)" "map_of wkvs ''icon'' = Some ic"
    "map_of kvs ''wind'' = Some (JObj vkvs)" "map_of vkvs ''speed'' = Some sp"
    by blast
  have ne: "kvs \<noteq> []" using shape(2) by auto
  note keep = filter_key_nonempty[OF shape(2)] filter_key_nonempty[OF shape(3)]
  show ?thesis
    unfolding current_fields_def
    by (simp add: get_current_weather_def current_weather_of_def subscript2_def weather0_def
          without_def under_def at_index_def map_of_filter_key map_of_map_key shape(1) shape(2-)
          keep ne)
qed


lemma isr_iff: "\<not> isl m \<longleftrightarrow> (\<exists>y. m = Inr y)"
  by (cases m) simp_all

lemma complete_sample_shape:
  assumes "complete_sample x"
  obtains kvs dt mkvs t wkvs ws ds ic where
    "x = JObj kvs" "map_of kvs ''dt_txt'' = Some dt"
    "map_of kvs ''main'' = Some (JObj mkvs)" "map_of mkvs ''temp'' = Some t"
    "map_of kvs ''weather'' = Some (JArr (JObj wkvs # ws))"
    "map_of wkvs ''description'' = Some ds" "map_of wkvs ''icon'' = Some ic"
proof -
  from assms obtain d dt mainv t wv w0 ds wv2 w02 ic
    where dt: "subscript x ''dt_txt'' = Inr dt"
      and main: "subscript x ''main'' = Inr mainv" "subscript mainv ''temp'' = Inr t"
      and wv: "subscript x ''weather'' = Inr wv" "subscript0 wv = Inr w0"
              "subscript w0 ''description'' = Inr ds"
      and wv2: "subscript x ''weather'' = Inr wv2" "subscript0 wv2 = Inr w02"
               "subscript w02 ''icon'' = Inr ic"
    unfolding complete_sample_def isr_iff sample_date_def reading_temp_def subscript2_def
      weather0_def then_do_eq_Inr by blast
  from wv wv2 have w: "wv2 = wv" "w02 = w0" by simp_all
  from dt obtain kvs where kvs: "x = JObj kvs" "map_of kvs ''dt_txt'' = Some dt"
    by (rule subscript_Inr_JObj)
  from main(2) obtain mkvs where mkvs: "mainv = JObj mkvs" "map_of mkvs ''temp'' = Some t"
    by (rule subscript_Inr_JObj)
  from wv(3) obtain wkvs where wkvs: "w0 = JObj wkvs" "map_of wkvs ''description'' = Some ds"
    by (rule subscript_Inr_JObj)
  from wv(2,3) obtain ws where ws: "wv = JArr (w0 # ws)"
    by (rule subscript0_Inr_subscript)
  show ?thesis
  proof (rule that[of kvs dt mkvs t wkvs ws ds ic])
    show "x = JObj kvs" by (rule kvs(1))
    show "map_of kvs ''dt_txt'' = Some dt" by (rule kvs(2))
    show "map_of kvs ''main'' = Some (JObj mkvs)"
      using main(1) by (simp add: kvs(1) mkvs(1) split: option.splits)
    show "map_of mkvs ''temp'' = Some t" by (rule mkvs(2))
    show "map_of kvs ''weather'' = Some (JArr (JObj wkvs # ws))"
      using wv(1) by (simp add: kvs(1) ws wkvs(1) split: option.splits)
    show "map_of wkvs ''description'' = Some ds" by (rule wkvs(2))
    show "map_of wkvs ''icon'' = Some ic"
      using wv2(3) by (simp add: w wkvs(1) split: option.splits)
  qed
qed

lemma sample_missing:
  assumes "complete_sample x"
  shows "\<forall>p \<in> set sample_fields. same_or_missing (fst p) (snd p x) x \<and> \<not> complete_sample (snd p x)"
proof -
  from complete_sample_shape[OF assms] obtain kvs dt mkvs t wkvs ws ds ic where
    shape: "x = JObj kvs" "map_of kvs ''dt_txt'' = Some dt"
    "map_of kvs ''main'' = Some (JObj mkvs)" "map_of mkvs ''temp'' = Some t"
    "map_of kvs ''weather'' = Some (JArr (JObj wkvs # ws))"
    "map_of wkvs ''description'' = Some ds" "map_of wkvs ''icon'' = Some ic"
    by blast
  show ?thesis
    unfolding sample_fields_def
    by (simp add: same_or_missing_def complete_sample_def sample_date_def reading_temp_def
          subscript2_def weather0_def without_def under_def at_index_def map_of_filter_key
          map_of_map_key shape)
qed

lemma same_or_missing_refl: "same_or_missing k x x"
  by (simp add: same_or_missing_def)


lemma list_all2_left_member:
  assumes "list_all2 P xs ys" and "x \<in> set xs"
  obtains y where "y \<in> set ys" and "P x y"
  using assms by (induction rule: list_all2_induct) auto

lemma group_fold_dates:
  assumes "fold_exn (\<lambda>g item. then_do (sample_date item) (\<lambda>d. Inr (add_reading d item g))) g0 items = Inr g"
  shows "\<forall>x \<in> set items. \<exists>d. sample_date x = Inr d"
  using assms
proof (induction items arbitrary: g0)
  case Nil
  then show ?case by simp
next
  case (Cons item items)
  from fold_exn_Cons_Inr[OF Cons.prems] obtain g1
    where step: "then_do (sample_date item) (\<lambda>d. Inr (add_reading d item g0)) = Inr g1"
      and rest: "fold_exn (\<lambda>g item. then_do (sample_date item) (\<lambda>d. Inr (add_reading d item g))) g1 items = Inr g"
    by blast
  from step have "\<exists>d. sample_date item = Inr d" by (auto simp: then_do_eq_Inr)
  with Cons.IH[OF rest] show ?case by simp
qed

lemma forecast_by_day_member:
  assumes "forecast_by_day items = Inr g" and "x \<in> set items"
  obtains d rs where "(d, rs) \<in> set g" and "x \<in> set rs"
proof -
  have fold: "fold_exn (\<lambda>g item. then_do (sample_date item) (\<lambda>d. Inr (add_reading d item g))) [] items = Inr g"
    using assms(1) by (simp add: forecast_by_day_def)
  from group_fold_dates[OF fold] assms(2) obtain d where d: "sample_date x = Inr d" by blast
  from group_fold_readings[OF fold, of d]
  have r: "readings_of g d = filter (\<lambda>item. sample_date item = Inr d) items"
    by (simp add: readings_of_def)
  with assms(2) d have x: "x \<in> set (readings_of g d)" by simp
  then obtain rs where "map_of g d = Some rs" and "x \<in> set rs"
    by (cases "map_of g d") (auto simp: readings_of_def)
  then have "(d, rs) \<in> set g" and "x \<in> set rs" by (auto dest: map_of_SomeD)
  then show ?thesis by (rule that)
qed

lemma map_exn_member:
  assumes "map_exn f xs = Inr ys" and "x \<in> set xs"
  shows "\<not> isl (f x)"
proof -
  from list_all2_left_member[OF map_exn_Inr[OF assms(1)] assms(2)] obtain y where "f x = Inr y"
    by blast
  then show ?thesis by simp
qed

lemma daily_forecast_complete:
  assumes "daily_forecast d rs = Inr df" and "x \<in> set rs"
  shows "\<not> isl (reading_temp x) \<and> \<not> isl (weather0 x ''description'') \<and> \<not> isl (weather0 x ''icon'')"
proof -
  from assms(1) obtain temps descriptions icons where "map_exn reading_temp rs = Inr temps"
    and "map_exn (\<lambda>r. weather0 r ''description'') rs = Inr descriptions"
    and "map_exn (\<lambda>r. weather0 r ''icon'') rs = Inr icons"
    unfolding daily_forecast_def then_do_eq_Inr by blast
  with assms(2) show ?thesis by (blast dest: map_exn_member)
qed

lemma forecast_complete:
  assumes "forecast_of data = Inr fc" and "then_do (subscript data ''list'') iterate = Inr items"
  shows "\<forall>x \<in> set items. complete_sample x"
proof
  fix x assume x: "x \<in> set items"
  from forecast_of_Inr[OF assms(1)] obtain items0 groups days
    where "then_do (subscript data ''list'') iterate = Inr items0"
      and "forecast_by_day items0 = Inr groups"
      and ds: "list_all2 (\<lambda>g df. daily_forecast (fst g) (snd g) = Inr df) groups days"
    by blast
  with assms(2) have g: "forecast_by_day items = Inr groups" by simp
  have fold: "fold_exn (\<lambda>g item. then_do (sample_date item) (\<lambda>d. Inr (add_reading d item g))) [] items = Inr groups"
    using g by (simp add: forecast_by_day_def)
  from group_fold_dates[OF fold] x have date: "\<not> isl (sample_date x)" by auto
  from forecast_by_day_member[OF g x] obtain d rs where grp: "(d, rs) \<in> set groups" and xr: "x \<in> set rs"
    by blast
  from list_all2_left_member[OF ds grp] obtain df where "daily_forecast d rs = Inr df"
    by auto
  from daily_forecast_complete[OF this xr] date show "complete_sample x"
    by (simp add: complete_sample_def)
qed


lemma map_exn_rel:
  assumes "list_all2 (\<lambda>x' x. f x' = f x \<or> f x' = Inl e) xs' xs"
  shows "map_exn f xs' = map_exn f xs \<or> map_exn f xs' = Inl e"
  using assms
proof (induction rule: list_all2_induct)
  case Nil
  show ?case by simp
next
  case (Cons x' xs' x xs)
  from Cons.hyps(1) show ?case
  proof
    assume same: "f x' = f x"
    from Cons.IH show ?thesis
      by (cases "f x") (auto simp: same)
  next
    assume "f x' = Inl e"
    then show ?thesis by simp
  qed
qed

lemma add_reading_rel:
  assumes "list_all2 (\<lambda>p' p. fst p' = fst p \<and> list_all2 R (snd p') (snd p)) g' g" and "R x' x"
  shows "list_all2 (\<lambda>p' p. fst p' = fst p \<and> list_all2 R (snd p') (snd p))
           (add_reading d x' g') (add_reading d x g)"
  using assms(1)
proof (induction rule: list_all2_induct)
  case Nil
  show ?case using assms(2) by simp
next
  case (Cons p' g' p g)
  obtain k' rs' k rs where p: "p' = (k', rs')" "p = (k, rs)"
    by (cases p'; cases p) blast
  with Cons.hyps(1) have k: "k' = k" and rs: "list_all2 R rs' rs" by simp_all
  show ?case
  proof (cases "k = d")
    case True
    from rs assms(2) have "list_all2 R (rs' @ [x']) (rs @ [x])"
      by (simp add: list_all2_appendI)
    with True k p Cons.hyps(2) show ?thesis by simp
  next
    case False
    with k p rs Cons.IH show ?thesis by simp
  qed
qed

lemma group_fold_rel:
  assumes "list_all2 (same_or_missing k) xs' xs"
    and "list_all2 (\<lambda>p' p. fst p' = fst p \<and> list_all2 (same_or_missing k) (snd p') (snd p)) g0' g0"
    and "fold_exn (\<lambda>g item. then_do (sample_date item) (\<lambda>d. Inr (add_reading d item g))) g0 xs = Inr g"
  shows "fold_exn (\<lambda>g item. then_do (sample_date item) (\<lambda>d. Inr (add_reading d item g))) g0' xs'
           = Inl (KeyError k)
    \<or> (\<exists>g'. fold_exn (\<lambda>g item. then_do (sample_date item) (\<lambda>d. Inr (add_reading d item g))) g0' xs'
           = Inr g'
         \<and> list_all2 (\<lambda>p' p. fst p' = fst p \<and> list_all2 (same_or_missing k) (snd p') (snd p)) g' g)"
  using assms
proof (induction arbitrary: g0' g0 rule: list_all2_induct)
  case Nil
  then show ?case by simp
next
  case (Cons x' xs' x xs)
  from fold_exn_Cons_Inr[OF Cons.prems(2)] obtain g1
    where step: "then_do (sample_date x) (\<lambda>d. Inr (add_reading d x g0)) = Inr g1"
      and rest: "fold_exn (\<lambda>g item. then_do (sample_date item) (\<lambda>d. Inr (add_reading d item g))) g1 xs = Inr g"
    by blast
  from step obtain d where d: "sample_date x = Inr d" and g1: "g1 = add_reading d x g0"
    by (auto simp: then_do_eq_Inr)
  from Cons.hyps(1) have "sample_date x' = sample_date x \<or> sample_date x' = Inl (KeyError k)"
    by (simp add: same_or_missing_def)
  then show ?case
  proof
    assume "sample_date x' = Inl (KeyError k)"
    then show ?thesis by simp
  next
    assume "sample_date x' = sample_date x"
    with d have d': "sample_date x' = Inr d" by simp
    from add_reading_rel[OF Cons.prems(1) Cons.hyps(1)]
    have "list_all2 (\<lambda>p' p. fst p' = fst p \<and> list_all2 (same_or_missing k) (snd p') (snd p))
            (add_reading d x' g0') g1"
      by (simp only: g1)
    from Cons.IH[OF this rest] show ?thesis by (simp add: d')
  qed
qed

lemma daily_forecast_rel:
  assumes "list_all2 (same_or_missing k) rs' rs" and "daily_forecast d rs = Inr df"
  shows "daily_forecast d rs' = Inr df \<or> daily_forecast d rs' = Inl (KeyError k)"
proof -
  let ?e = "KeyError k"
  from assms(1) have "list_all2 (\<lambda>x' x. reading_temp x' = reading_temp x \<or> reading_temp x' = Inl ?e) rs' rs"
    by (rule list_all2_mono) (simp add: same_or_missing_def)
  from map_exn_rel[OF this]
  have t: "map_exn reading_temp rs' = map_exn reading_temp rs \<or> map_exn reading_temp rs' = Inl ?e" .
  from assms(1) have "list_all2 (\<lambda>x' x. weather0 x' ''description'' = weather0 x ''description''
      \<or> weather0 x' ''description'' = Inl ?e) rs' rs"
    by (rule list_all2_mono) (simp add: same_or_missing_def)
  from map_exn_rel[OF this]
  have ds: "map_exn (\<lambda>r. weather0 r ''description'') rs' = map_exn (\<lambda>r. weather0 r ''description'') rs
      \<or> map_exn (\<lambda>r. weather0 r ''description'') rs' = Inl ?e" .
  from assms(1) have "list_all2 (\<lambda>x' x. weather0 x' ''icon'' = weather0 x ''icon''
      \<or> weather0 x' ''icon'' = Inl ?e) rs' rs"
    by (rule list_all2_mono) (simp add: same_or_missing_def)
  from map_exn_rel[OF this]
  have ic: "map_exn (\<lambda>r. weather0 r ''icon'') rs' = map_exn (\<lambda>r. weather0 r ''icon'') rs
      \<or> map_exn (\<lambda>r. weather0 r ''icon'') rs' = Inl ?e" .
  from assms(2) obtain temps descriptions icons where ok: "map_exn reading_temp rs = Inr temps"
    "map_exn (\<lambda>r. weather0 r ''description'') rs = Inr descriptions"
    "map_exn (\<lambda>r. weather0 r ''icon'') rs = Inr icons"
    unfolding daily_forecast_def then_do_eq_Inr by blast
  show ?thesis
  proof (cases "map_exn reading_temp rs' = Inl ?e")
    case True
    then show ?thesis by (simp add: daily_forecast_def)
  next
    case t': False
    with t have t'': "map_exn reading_temp rs' = Inr temps" by (simp add: ok)
    show ?thesis
    proof (cases "map_exn (\<lambda>r. weather0 r ''description'') rs' = Inl ?e")
      case True
      with t'' show ?thesis by (simp add: daily_forecast_def)
    next
      case False
      with ds have ds': "map_exn (\<lambda>r. weather0 r ''description'') rs' = Inr descriptions"
        by (simp add: ok)
      show ?thesis
      proof (cases "map_exn (\<lambda>r. weather0 r ''icon'') rs' = Inl ?e")
        case True
        with t'' ds' show ?thesis by (simp add: daily_forecast_def)
      next
        case False
        with ic have ic': "map_exn (\<lambda>r. weather0 r ''icon'') rs' = Inr icons"
          by (simp add: ok)
        have "daily_forecast d rs' = daily_forecast d rs"
          by (simp add: daily_forecast_def t'' ds' ic' ok)
        with assms(2) show ?thesis by simp
      qed
    qed
  qed
qed

lemma days_rel:
  assumes "list_all2 (\<lambda>p' p. fst p' = fst p \<and> list_all2 (same_or_missing k) (snd p') (snd p)) g' g"
    and "map_exn (\<lambda>p. daily_forecast (fst p) (snd p)) g = Inr days"
  shows "map_exn (\<lambda>p. daily_forecast (fst p) (snd p)) g' = Inr days
    \<or> map_exn (\<lambda>p. daily_forecast (fst p) (snd p)) g' = Inl (KeyError k)"
proof -
  have "list_all2 (\<lambda>p' p. daily_forecast (fst p') (snd p') = daily_forecast (fst p) (snd p)
      \<or> daily_forecast (fst p') (snd p') = Inl (KeyError k)) g' g"
    using assms
  proof (induction arbitrary: days rule: list_all2_induct)
    case Nil
    show ?case by simp
  next
    case (Cons p' g' p g)
    from Cons.prems obtain df dfs where df: "daily_forecast (fst p) (snd p) = Inr df"
      and dfs: "map_exn (\<lambda>p. daily_forecast (fst p) (snd p)) g = Inr dfs"
      by (auto simp: then_do_eq_Inr)
    from Cons.hyps(1) have "fst p' = fst p" and "list_all2 (same_or_missing k) (snd p') (snd p)"
      by simp_all
    with daily_forecast_rel[OF this(2) df] df Cons.IH[OF dfs] show ?case by auto
  qed
  from map_exn_rel[OF this] assms(2) show ?thesis by simp
qed


lemma forecast_sample_missing:
  assumes ret: "get_five_day_forecast data = Returned fc"
    and lst: "subscript data ''list'' = Inr (JArr items)" and i: "i < length items"
    and p: "p \<in> set sample_fields"
  shows "get_five_day_forecast (under ''list'' (at_index i (snd p)) data) = ParseFailure (fst p)"
proof -
  let ?k = "fst p" and ?del = "snd p"
  let ?data' = "under ''list'' (at_index i ?del) data"
  let ?items' = "items[i := ?del (items ! i)]"
  let ?GR = "list_all2 (\<lambda>p' p. fst p' = fst p \<and> list_all2 (same_or_missing ?k) (snd p') (snd p))"
  note fo = get_five_day_forecast_Returned[OF ret]
  from lst obtain kvs where kvs: "data = JObj kvs" "map_of kvs ''list'' = Some (JArr items)"
    by (rule subscript_Inr_JObj)
  from kvs(2) have ne: "kvs \<noteq> []" by auto
  have truthy': "truthy ?data'" using ne by (simp add: kvs(1) under_def)
  have lst': "then_do (subscript ?data' ''list'') iterate = Inr ?items'"
    using i by (simp add: kvs subscript_under at_index_def)
  have city': "subscript2 ?data' ''city'' k2 = subscript2 data ''city'' k2" for k2
    by (simp add: kvs(1) subscript2_def subscript_under)
  have items: "then_do (subscript data ''list'') iterate = Inr items"
    by (simp add: lst)
  from fo obtain items0 groups days name ctry
    where "then_do (subscript data ''list'') iterate = Inr items0"
      and "forecast_by_day items0 = Inr groups"
      and days: "map_exn (\<lambda>g. daily_forecast (fst g) (snd g)) groups = Inr days"
      and name: "subscript2 data ''city'' ''name'' = Inr name"
      and ctry: "subscript2 data ''city'' ''country'' = Inr ctry"
    unfolding forecast_of_def then_do_eq_Inr by blast
  with items have groups: "forecast_by_day items = Inr groups" by simp
  from forecast_complete[OF fo items] i have "complete_sample (items ! i)" by simp
  from sample_missing[OF this] p
  have rel: "same_or_missing ?k (?del (items ! i)) (items ! i)"
    and inc: "\<not> complete_sample (?del (items ! i))"
    by blast+
  have "list_all2 (same_or_missing ?k) items items"
    by (simp add: list_all2_same same_or_missing_refl)
  from list_all2_update_cong[OF this rel, of i]
  have rel_items: "list_all2 (same_or_missing ?k) ?items' items" by simp
  have fold: "fold_exn (\<lambda>g item. then_do (sample_date item) (\<lambda>d. Inr (add_reading d item g))) [] items
      = Inr groups"
    using groups by (simp add: forecast_by_day_def)
  have "?GR [] []" by simp
  from group_fold_rel[OF rel_items this fold]
  have grouping: "forecast_by_day ?items' = Inl (KeyError ?k)
      \<or> (\<exists>g'. forecast_by_day ?items' = Inr g' \<and> ?GR g' groups)"
    by (simp add: forecast_by_day_def)
  have not_ok: "forecast_of ?data' \<noteq> Inr fc'" for fc'
  proof
    assume "forecast_of ?data' = Inr fc'"
    from forecast_complete[OF this lst'] have "\<forall>x \<in> set ?items'. complete_sample x" .
    moreover from i have "?del (items ! i) \<in> set ?items'"
      by (simp add: set_update_memI)
    ultimately show False using inc by blast
  qed
  have "forecast_of ?data' = Inl (KeyError ?k)"
  proof -
    from grouping show ?thesis
    proof
      assume "forecast_by_day ?items' = Inl (KeyError ?k)"
      then show ?thesis by (simp add: forecast_of_def lst')
    next
      assume "\<exists>g'. forecast_by_day ?items' = Inr g' \<and> ?GR g' groups"
      then obtain g' where g': "forecast_by_day ?items' = Inr g'" and gr: "?GR g' groups"
        by blast
      from days_rel[OF gr days] show ?thesis
      proof
        assume "map_exn (\<lambda>p. daily_forecast (fst p) (snd p)) g' = Inr days"
        then have "\<exists>fc'. forecast_of ?data' = Inr fc'"
          by (simp add: forecast_of_def lst' g' city' name ctry)
        with not_ok show ?thesis by blast
      next
        assume "map_exn (\<lambda>p. daily_forecast (fst p) (snd p)) g' = Inl (KeyError ?k)"
        then show ?thesis by (simp add: forecast_of_def lst' g')
      qed
    qed
  qed
  with truthy' show ?thesis by (simp add: get_five_day_forecast_def)
qed

lemma forecast_missing:
  assumes ret: "get_five_day_forecast data = Returned fc"
  shows "\<forall>p \<in> set forecast_fields. get_five_day_forecast (snd p data) = ParseFailure (fst p)"
proof -
  note fo = get_five_day_forecast_Returned[OF ret]
  from fo obtain lv items groups days cv name cv2 ctry
    where lv: "subscript data ''list'' = Inr lv" and it: "iterate lv = Inr items"
      and groups: "forecast_by_day items = Inr groups"
      and days: "map_exn (\<lambda>g. daily_forecast (fst g) (snd g)) groups = Inr days"
      and name: "subscript data ''city'' = Inr cv" "subscript cv ''name'' = Inr name"
      and ctry: "subscript data ''city'' = Inr cv2" "subscript cv2 ''country'' = Inr ctry"
    unfolding forecast_of_def subscript2_def then_do_eq_Inr by blast
  from lv obtain kvs where kvs: "data = JObj kvs" "map_of kvs ''list'' = Some lv"
    by (rule subscript_Inr_JObj)
  from name(2) obtain ckvs where ckvs: "cv = JObj ckvs" "map_of ckvs ''name'' = Some name"
    by (rule subscript_Inr_JObj)
  from name(1) ctry(1) have "cv2 = cv" by simp
  with ctry(2) have cc: "map_of ckvs ''country'' = Some ctry"
    by (simp add: ckvs(1) split: option.splits)
  from name(1) have city: "map_of kvs ''city'' = Some (JObj ckvs)"
    by (simp add: kvs(1) ckvs(1) split: option.splits)
  have ne: "kvs \<noteq> []" using kvs(2) by auto
  note keep = filter_key_nonempty[OF kvs(2)] filter_key_nonempty[OF city]
  show ?thesis
    unfolding forecast_fields_def
    by (simp add: get_five_day_forecast_def forecast_of_def subscript2_def
          without_def under_def map_of_filter_key map_of_map_key kvs city ckvs(2) cc it groups days
          keep ne)
qed


lemma get_pune_now: "get_current_weather pune_now = Returned pune_weather"
  by code_simp

text \<open>
  C8. When a field that the client reads is removed from a response for which the
  request method returns an object (for example \<open>main.temp\<close>), \<open>get_current_weather\<close>
  catches the \<open>KeyError\<close>, reports the missing key and returns \<open>None\<close>; so does
  \<open>get_five_day_forecast\<close>, for the fields of the response and for the fields of any one
  sample. No exception leaves the method.
\<close>

theorem missing_field_parse_failure:
  "(get_current_weather data = Returned w \<and> p \<in> set current_fields
      \<longrightarrow> get_current_weather (snd p data) = ParseFailure (fst p)
          \<and> returns_None (get_current_weather (snd p data)))
   \<and> (get_five_day_forecast data = Returned fc \<and> p \<in> set forecast_fields
      \<longrightarrow> get_five_day_forecast (snd p data) = ParseFailure (fst p)
          \<and> returns_None (get_five_day_forecast (snd p data)))
   \<and> (get_five_day_forecast data = Returned fc \<and> subscript data ''list'' = Inr (JArr items)
        \<and> i < length items \<and> p \<in> set sample_fields
      \<longrightarrow> get_five_day_forecast (under ''list'' (at_index i (snd p)) data) = ParseFailure (fst p)
          \<and> returns_None (get_five_day_forecast (under ''list'' (at_index i (snd p)) data)))"
proof (intro conjI impI)
  assume a: "get_current_weather data = Returned w \<and> p \<in> set current_fields"
  with current_missing[of data w] show "get_current_weather (snd p data) = ParseFailure (fst p)"
    by blast
  then show "returns_None (get_current_weather (snd p data))" by simp
next
  assume a: "get_five_day_forecast data = Returned fc \<and> p \<in> set forecast_fields"
  with forecast_missing[of data fc] show "get_five_day_forecast (snd p data) = ParseFailure (fst p)"
    by blast
  then show "returns_None (get_five_day_forecast (snd p data))" by simp
next
  assume a: "get_five_day_forecast data = Returned fc \<and> subscript data ''list'' = Inr (JArr items)
        \<and> i < length items \<and> p \<in> set sample_fields"
  then show "get_five_day_forecast (under ''list'' (at_index i (snd p)) data) = ParseFailure (fst p)"
    using forecast_sample_missing by blast
  then show "returns_None (get_five_day_forecast (under ''list'' (at_index i (snd p)) data))" by simp
qed

theorem missing_field_parse_failure_witness:
  "get_current_weather pune_now = Returned pune_weather
   \<and> (''temp'', under ''main'' (without ''temp'')) \<in> set current_fields
   \<and> get_current_weather (under ''main'' (without ''temp'') pune_now) = ParseFailure ''temp''
   \<and> get_five_day_forecast mixed_response = Returned mixed_forecast
   \<and> (''city'', without ''city'') \<in> set forecast_fields
   \<and> get_five_day_forecast (without ''city'' mixed_response) = ParseFailure ''city''
   \<and> (''temp'', under ''main'' (without ''temp'')) \<in> set sample_fields
   \<and> get_five_day_forecast
         (under ''list'' (at_index 1 (under ''main'' (without ''temp''))) mixed_response)
       = ParseFailure ''temp''"
proof -
  have m1: "(''temp'', under ''main'' (without ''temp'')) \<in> set current_fields"
    by (simp add: current_fields_def)
  have m2: "(''city'', without ''city'') \<in> set forecast_fields"
    by (simp add: forecast_fields_def)
  have m3: "(''temp'', under ''main'' (without ''temp'')) \<in> set sample_fields"
    by (simp add: sample_fields_def)
  have l: "subscript mixed_response ''list''
      = Inr (JArr [sample ''2024-01-04 00:00:00'' 15 ''light rain'' ''10d'',
                   sample ''2024-01-03 21:00:00'' 20 ''clear sky'' ''01d'',
                   sample ''2024-01-04 03:00:00'' 17 ''light rain'' ''10d''])"
    by (simp add: mixed_response_def response_def)
  have "get_current_weather (under ''main'' (without ''temp'') pune_now) = ParseFailure ''temp''"
    using missing_field_parse_failure[where data = pune_now and w = pune_weather
        and p = "(''temp'', under ''main'' (without ''temp''))"]
      get_pune_now m1 by simp
  moreover have "get_five_day_forecast (without ''city'' mixed_response) = ParseFailure ''city''"
    using missing_field_parse_failure[where data = mixed_response and fc = mixed_forecast
        and p = "(''city'', without ''city'')"]
      get_mixed_forecast m2 by simp
  moreover have "get_five_day_forecast
         (under ''list'' (at_index 1 (under ''main'' (without ''temp''))) mixed_response)
       = ParseFailure ''temp''"
    using missing_field_parse_failure[where data = mixed_response and fc = mixed_forecast
        and p = "(''temp'', under ''main'' (without ''temp''))" and i = 1
        and items = "[sample ''2024-01-04 00:00:00'' 15 ''light rain'' ''10d'',
                   sample ''2024-01-03 21:00:00'' 20 ''clear sky'' ''01d'',
                   sample ''2024-01-04 03:00:00'' 17 ''light rain'' ''10d'']"] get_mixed_forecast m3 l by simp
  ultimately show ?thesis using get_pune_now get_mixed_forecast m1 m2 m3 by blast
qed

end
